theory Spec2Isabelle
  imports Complex_Main "HOL-Library.Sublist"
begin

section \<open>Python values and the parts of the runtime that live outside the repository\<close>

text \<open>
  Values decoded from JSON (and the literals \<open>ast.literal_eval\<close> yields) are Python
  values: \<open>None\<close>, booleans, numbers, strings, lists and dicts. A dict is an association
  list with distinct keys; \<open>dget\<close> is \<open>dict.get\<close>.
\<close>

datatype pyval =
    PNone
  | PBool bool
  | PNum rat
  | PStr string
  | PList "pyval list"
  | PDict "(string \<times> pyval) list"

type_synonym item = "(string \<times> pyval) list"

text \<open>
  The exceptions that matter here. \<open>ast.literal_eval\<close> raises \<open>ValueError\<close> or
  \<open>SyntaxError\<close> on text that is not a literal, but it can also let another
  exception through (a \<open>TypeError\<close> for a dict with an unhashable key such as
  \<open>{[1]: 2}\<close>); the last constructor is the \<open>RuntimeError\<close> of \<open>process_bo_status\<close>,
  with the title number, the proprietor index, the owner index and the raw value of
  its message.
\<close>

datatype py_error =
    AttributeError
  | TypeError
  | ValueError
  | SyntaxError
  | Invalid_natures_of_control "string option" nat nat string

text \<open>
  What the program takes from outside its own source files: the Unicode tables of the
  interpreter (consulted only for text that is not plain ASCII), the library functions
  \<open>json.dumps\<close>, \<open>json.loads\<close>, \<open>ast.literal_eval\<close>, \<open>str\<close> on non-strings, rapidfuzz's
  \<open>fuzz.ratio\<close> and \<open>process.extractOne\<close>, the geospatial test, the lines of
  \<open>words_to_ignore_in_names.txt\<close>, and the three reference lists. \<open>literal_eval\<close>
  gives the literal or the exception it raises; \<open>json_loads\<close> gives \<open>None\<close> for a
  \<open>JSONDecodeError\<close>. Every theorem below holds for every such environment unless it
  says otherwise.
\<close>

record env =
  u_lower :: "string \<Rightarrow> string"
  u_fold :: "string \<Rightarrow> string"
  u_space :: "char \<Rightarrow> bool"
  u_word :: "char \<Rightarrow> bool"
  token_file :: "string list"
  json_dumps :: "pyval \<Rightarrow> string"
  json_loads :: "string \<Rightarrow> pyval option"
  literal_eval :: "string \<Rightarrow> py_error + pyval"
  py_repr :: "pyval \<Rightarrow> string"
  fuzz_ratio :: "string \<Rightarrow> string \<Rightarrow> real"
  extractOne :: "string \<Rightarrow> string list \<Rightarrow> real \<Rightarrow> bool"
  geo_within_uk :: "string \<Rightarrow> string \<Rightarrow> bool"
  all_listed_companies :: "string list"
  normalised_government_companies :: "string list"
  manual_exclusions :: "string list"

subsection \<open>Characters and strings\<close>

text \<open>
  Text is a \<open>string\<close>. A character below 128 is that ASCII character, and what Python
  does with it is written out here; the other characters stand for the characters
  outside ASCII, and their Unicode properties (whitespace, word character, lowercase
  form, decomposition) are whatever the environment says.
\<close>

definition is_ascii :: "char \<Rightarrow> bool" where
  "is_ascii c \<longleftrightarrow> (of_char c :: nat) < 128"

definition is_az09 :: "char \<Rightarrow> bool" where
  "is_az09 c \<longleftrightarrow> (let n = (of_char c :: nat) in (97 \<le> n \<and> n \<le> 122) \<or> (48 \<le> n \<and> n \<le> 57))"

definition ascii_upper :: "char \<Rightarrow> bool" where
  "ascii_upper c \<longleftrightarrow> (let n = (of_char c :: nat) in 65 \<le> n \<and> n \<le> 90)"

definition ascii_lower :: "char \<Rightarrow> char" where
  "ascii_lower c =
     (case map_of (zip ''ABCDEFGHIJKLMNOPQRSTUVWXYZ'' ''abcdefghijklmnopqrstuvwxyz'') c of
        Some d \<Rightarrow> d
      | None \<Rightarrow> c)"

text \<open>\<open>str.isspace\<close> on one character; it is also the regular expression class \<open>\s\<close>.\<close>

definition py_isspace :: "env \<Rightarrow> char \<Rightarrow> bool" where
  "py_isspace E c \<longleftrightarrow>
     (if is_ascii c then (let n = (of_char c :: nat) in (9 \<le> n \<and> n \<le> 13) \<or> (28 \<le> n \<and> n \<le> 32))
      else u_space E c)"

text \<open>The regular expression class \<open>\w\<close> of a \<open>str\<close> pattern.\<close>

definition re_word :: "env \<Rightarrow> char \<Rightarrow> bool" where
  "re_word E c \<longleftrightarrow>
     (if is_ascii c then is_az09 c \<or> ascii_upper c \<or> c = CHR ''_'' else u_word E c)"

definition py_lower :: "env \<Rightarrow> string \<Rightarrow> string" where
  "py_lower E s = (if list_all is_ascii s then map ascii_lower s else u_lower E s)"

definition py_strip :: "env \<Rightarrow> string \<Rightarrow> string" where
  "py_strip E s = rev (dropWhile (py_isspace E) (rev (dropWhile (py_isspace E) s)))"

definition py_lstrip :: "env \<Rightarrow> string \<Rightarrow> string" where
  "py_lstrip E s = dropWhile (py_isspace E) s"

text \<open>\<open>s.split()\<close>: the maximal runs of non-whitespace.\<close>

fun split_acc :: "env \<Rightarrow> string \<Rightarrow> string \<Rightarrow> string list" where
  "split_acc E [] w = (if w = [] then [] else [w])"
| "split_acc E (c # cs) w =
     (if py_isspace E c then (if w = [] then split_acc E cs [] else w # split_acc E cs [])
      else split_acc E cs (w @ [c]))"

definition py_split :: "env \<Rightarrow> string \<Rightarrow> string list" where
  "py_split E s = split_acc E s []"

text \<open>\<open>s.split(sep)\<close> for a one-character separator: always at least one part.\<close>

fun split_on_acc :: "char \<Rightarrow> string \<Rightarrow> string \<Rightarrow> string list" where
  "split_on_acc sep [] w = [w]"
| "split_on_acc sep (c # cs) w =
     (if c = sep then w # split_on_acc sep cs [] else split_on_acc sep cs (w @ [c]))"

definition py_split_on :: "char \<Rightarrow> string \<Rightarrow> string list" where
  "py_split_on sep s = split_on_acc sep s []"

text \<open>\<open>sep.join(parts)\<close>.\<close>

fun py_join :: "string \<Rightarrow> string list \<Rightarrow> string" where
  "py_join sep [] = []"
| "py_join sep [p] = p"
| "py_join sep (p # q # ps) = p @ sep @ py_join sep (q # ps)"

subsection \<open>Dicts and truthiness\<close>

definition dget :: "item \<Rightarrow> string \<Rightarrow> pyval" where
  "dget d k = (case map_of d k of None \<Rightarrow> PNone | Some v \<Rightarrow> v)"

definition dget_default :: "item \<Rightarrow> string \<Rightarrow> pyval \<Rightarrow> pyval" where
  "dget_default d k dflt = (case map_of d k of None \<Rightarrow> dflt | Some v \<Rightarrow> v)"

fun truthy :: "pyval \<Rightarrow> bool" where
  "truthy PNone = False"
| "truthy (PBool b) = b"
| "truthy (PNum n) = (n \<noteq> 0)"
| "truthy (PStr s) = (s \<noteq> [])"
| "truthy (PList xs) = (xs \<noteq> [])"
| "truthy (PDict kv) = (kv \<noteq> [])"

text \<open>\<open>sub in s\<close> for two strings.\<close>

fun py_in_str :: "string \<Rightarrow> string \<Rightarrow> bool" where
  "py_in_str sub [] = (sub = [])"
| "py_in_str sub (x # xs) = (prefix sub (x # xs) \<or> py_in_str sub xs)"

definition py_or :: "pyval \<Rightarrow> pyval \<Rightarrow> pyval" where
  "py_or a b = (if truthy a then a else b)"

text \<open>\<open>str(v)\<close>: a string is itself, anything else is printed by the interpreter.\<close>

definition py_str :: "env \<Rightarrow> pyval \<Rightarrow> string" where
  "py_str E v = (case v of PStr s \<Rightarrow> s | _ \<Rightarrow> py_repr E v)"

section \<open>roe_common_functions: the name normaliser\<close>

subsection \<open>The regular expressions it uses\<close>

text \<open>
  \<open>\b\<close>: exactly one of the characters before and after the position is a word
  character; there is none before the start and none after the end of the text.
\<close>

definition re_boundary :: "env \<Rightarrow> char option \<Rightarrow> string \<Rightarrow> bool" where
  "re_boundary E prev text \<longleftrightarrow>
     (case prev of None \<Rightarrow> False | Some p \<Rightarrow> re_word E p)
       \<noteq> (case text of [] \<Rightarrow> False | c # _ \<Rightarrow> re_word E c)"

text \<open>
  The acronym patterns are sequences of four kinds of atoms: \<open>\b\<close>, a literal
  character, the greedy \<open>\s*\<close> and the greedy \<open>\.?\<close>. \<open>re_match\<close> is the backtracking
  matcher at one position: it knows the character before the position and returns
  the length of the first match in the engine's order (longer repetitions first).
\<close>

datatype atom = Bnd | Lit char | SpStar | OptDot

fun re_match :: "env \<Rightarrow> atom list \<Rightarrow> char option \<Rightarrow> string \<Rightarrow> nat option" where
  "re_match E [] prev text = Some 0"
| "re_match E (Bnd # as) prev text =
     (if re_boundary E prev text then re_match E as prev text else None)"
| "re_match E (Lit c # as) prev [] = None"
| "re_match E (Lit c # as) prev (x # xs) =
     (if x = c then map_option Suc (re_match E as (Some x) xs) else None)"
| "re_match E (OptDot # as) prev [] = re_match E as prev []"
| "re_match E (OptDot # as) prev (x # xs) =
     (if x = CHR ''.''
      then (case re_match E as (Some x) xs of
              Some n \<Rightarrow> Some (Suc n)
            | None \<Rightarrow> re_match E as prev (x # xs))
      else re_match E as prev (x # xs))"
| "re_match E (SpStar # as) prev [] = re_match E as prev []"
| "re_match E (SpStar # as) prev (x # xs) =
     (if py_isspace E x
      then (case re_match E (SpStar # as) (Some x) xs of
              Some n \<Rightarrow> Some (Suc n)
            | None \<Rightarrow> re_match E as prev (x # xs))
      else re_match E as prev (x # xs))"

text \<open>
  \<open>re.sub(pattern, repl, text)\<close> for a pattern whose matches are never empty: scan
  from the left; at a match emit \<open>repl\<close> and go on after it, otherwise copy one
  character. \<open>m\<close> is the matcher at one position.
\<close>

function re_sub :: "(char option \<Rightarrow> string \<Rightarrow> nat option) \<Rightarrow> string \<Rightarrow> char option \<Rightarrow> string \<Rightarrow> string" where
  "re_sub m repl prev [] = []"
| "re_sub m repl prev (x # xs) =
     (case m prev (x # xs) of
        Some n \<Rightarrow>
          (if 0 < n then repl @ re_sub m repl (Some (last (take n (x # xs)))) (drop n (x # xs))
           else x # re_sub m repl (Some x) xs)
      | None \<Rightarrow> x # re_sub m repl (Some x) xs)"
  by pat_completeness auto
termination
  by (relation "measure (\<lambda>(m, repl, prev, text). length text)") auto

text \<open>
  \<open>r'\bs\s*\.?\s*a\s*\.?\s*r\s*\.?\s*l\b'\<close>, \<open>r'\bs\s*\.?\s*p\s*\.?\s*a\b'\<close>,
  \<open>r'\bb\s*\.?\s*v\b'\<close> and \<open>r'\bg\s*\.?\s*m\s*\.?\s*b\s*\.?\s*h\b'\<close>.
\<close>

definition pat_sarl :: "atom list" where
  "pat_sarl = [Bnd, Lit CHR ''s'', SpStar, OptDot, SpStar, Lit CHR ''a'', SpStar, OptDot, SpStar,
               Lit CHR ''r'', SpStar, OptDot, SpStar, Lit CHR ''l'', Bnd]"

definition pat_spa :: "atom list" where
  "pat_spa = [Bnd, Lit CHR ''s'', SpStar, OptDot, SpStar, Lit CHR ''p'', SpStar, OptDot, SpStar,
              Lit CHR ''a'', Bnd]"

definition pat_bv :: "atom list" where
  "pat_bv = [Bnd, Lit CHR ''b'', SpStar, OptDot, SpStar, Lit CHR ''v'', Bnd]"

definition pat_gmbh :: "atom list" where
  "pat_gmbh = [Bnd, Lit CHR ''g'', SpStar, OptDot, SpStar, Lit CHR ''m'', SpStar, OptDot, SpStar,
               Lit CHR ''b'', SpStar, OptDot, SpStar, Lit CHR ''h'', Bnd]"

text \<open>
  The four patterns have one shape: the letters of the acronym, with \<open>\s*\.?\s*\<close>
  between two letters, between two word boundaries.
\<close>

fun acronym_atoms :: "string \<Rightarrow> atom list" where
  "acronym_atoms [] = []"
| "acronym_atoms [c] = [Lit c]"
| "acronym_atoms (c # d # cs) = Lit c # SpStar # OptDot # SpStar # acronym_atoms (d # cs)"

subsection \<open>The token list\<close>

text \<open>
  \<open>load_tokens\<close>: the non-blank lines that are not comments, stripped and lowercased,
  longest first (Python's sort is stable, also with \<open>reverse=True\<close>). The file itself
  is not part of the sources: its lines are \<open>token_file E\<close>.
\<close>

definition load_tokens :: "env \<Rightarrow> string list \<Rightarrow> string list" where
  "load_tokens E file_lines =
     sort_key (\<lambda>t. - int (length t))
       (map (\<lambda>line. py_lower E (py_strip E line))
          (filter (\<lambda>line. py_strip E line \<noteq> [] \<and> \<not> prefix ''#'' (py_lstrip E line)) file_lines))"

definition TOKENS_TO_REMOVE :: "env \<Rightarrow> string list" where
  "TOKENS_TO_REMOVE E = load_tokens E (token_file E)"

text \<open>
  \<open>NORMALIZATION_PATTERN\<close> is \<open>\b(?:t1|t2|...)\b\<close> with every token escaped: after the
  opening boundary the alternatives are tried in order, each followed by the closing
  boundary.
\<close>

fun first_alt :: "env \<Rightarrow> string list \<Rightarrow> char option \<Rightarrow> string \<Rightarrow> nat option" where
  "first_alt E [] prev text = None"
| "first_alt E (t # ts) prev text =
     (if prefix t text \<and>
         re_boundary E (if t = [] then prev else Some (last t)) (drop (length t) text)
      then Some (length t)
      else first_alt E ts prev text)"

definition match_tokens :: "env \<Rightarrow> string list \<Rightarrow> char option \<Rightarrow> string \<Rightarrow> nat option" where
  "match_tokens E ts prev text =
     (if re_boundary E prev text then first_alt E ts prev text else None)"

subsection \<open>normalise_text\<close>

definition py_fold :: "env \<Rightarrow> string \<Rightarrow> string" where
  \<comment> \<open>NFKD decomposition with the combining marks dropped: nothing happens to ASCII text.\<close>
  "py_fold E s = (if list_all is_ascii s then s else u_fold E s)"

definition normalise_text :: "env \<Rightarrow> string \<Rightarrow> string" where
  "normalise_text E text0 =
     (let text = py_fold E (py_lower E text0);
          text = re_sub (re_match E pat_sarl) '' sarl'' None text;
          text = re_sub (re_match E pat_spa) '' spa'' None text;
          text = re_sub (re_match E pat_bv) '' bv'' None text;
          text = re_sub (re_match E pat_gmbh) '' gmbh'' None text;
          text = filter (\<lambda>c. is_az09 c \<or> py_isspace E c) text;
          text = re_sub (match_tokens E (TOKENS_TO_REMOVE E)) '''' None text;
          text = filter (\<lambda>c. \<not> py_isspace E c) text
      in py_strip E text)"

text \<open>The guard \<open>if not isinstance(text, str): return ''\<close>, for callers that pass any value.\<close>

definition normalise_val :: "env \<Rightarrow> pyval \<Rightarrow> string" where
  "normalise_val E v = (case v of PStr s \<Rightarrow> normalise_text E s | _ \<Rightarrow> [])"

section \<open>roe_2_find_BOs: ceased controllers and the stored beneficial-owner slots\<close>

definition is_ceased_beneficial_owner :: "env \<Rightarrow> item \<Rightarrow> bool" where
  "is_ceased_beneficial_owner E bo =
     (let v0 = dget bo ''ceased'';
          v = (if v0 = PNone then py_or (dget bo ''ceased_on'') (dget bo ''ceased_date'') else v0)
      in case v of
           PNone \<Rightarrow> False
         | PBool b \<Rightarrow> b
         | PNum n \<Rightarrow> n \<noteq> 0
         | PStr s \<Rightarrow>
             (let w = py_lower E (py_strip E s)
              in if w \<in> set ['''', ''0'', ''false'', ''no'', ''none'', ''null''] then False else True)
         | PList xs \<Rightarrow> xs \<noteq> []
         | PDict kv \<Rightarrow> kv \<noteq> [])"

text \<open>
  The loop \<open>for bo in bos: if is_ceased...: ceased_bos_skipped += 1; continue;
  active_bos.append(bo)\<close>, returning the active list and the counter.
\<close>

fun collect_active :: "env \<Rightarrow> item list \<Rightarrow> item list \<Rightarrow> nat \<Rightarrow> item list \<times> nat" where
  "collect_active E [] active skipped = (active, skipped)"
| "collect_active E (bo # bos) active skipped =
     (if is_ceased_beneficial_owner E bo then collect_active E bos active (skipped + 1)
      else collect_active E bos (active @ [bo]) skipped)"

text \<open>Column names: \<open>f'proprietor{i}_BO{j}_'\<close> and \<open>f'proprietor{i}_...'\<close>, for one-digit indices.\<close>

definition digit :: "nat \<Rightarrow> char" where
  "digit n = ''0123456789'' ! n"

definition bo_col :: "nat \<Rightarrow> nat \<Rightarrow> string \<Rightarrow> string" where
  "bo_col i j field = ''proprietor'' @ [digit i] @ ''_BO'' @ [digit j] @ ''_'' @ field"

definition prop_col :: "nat \<Rightarrow> string \<Rightarrow> string" where
  "prop_col i field = ''proprietor'' @ [digit i] @ ''_'' @ field"

type_synonym update = "string \<rightharpoonup> pyval"

definition bo_fields :: "string list" where
  "bo_fields = [''name'', ''legal_form'', ''ceased'', ''kind'', ''address'', ''is_sanctioned'',
                ''natures_of_control'']"

text \<open>The "clear fields" loop over \<open>j\<close> in 1..4.\<close>

definition clear_slot :: "nat \<Rightarrow> nat \<Rightarrow> update \<Rightarrow> update" where
  "clear_slot i j u = fold (\<lambda>f m. m(bo_col i j f \<mapsto> PNone)) bo_fields u"

definition clear_fields :: "nat \<Rightarrow> update \<Rightarrow> update" where
  "clear_fields i u =
     ((fold (clear_slot i) [1, 2, 3, 4] u)
        (prop_col i ''BO_failure'' \<mapsto> PNone)) (prop_col i ''number'' \<mapsto> PNone)"

text \<open>
  The address written for a stored owner: \<open>addr = bo.get('address') or {}\<close>, then the
  string-valued parts joined by a comma. A truthy address that is not a dict has no
  \<open>get\<close>: the source raises.
\<close>

definition stored_address :: "item \<Rightarrow> py_error + pyval" where
  "stored_address bo =
     (case py_or (dget bo ''address'') (PDict []) of
        PDict addr \<Rightarrow>
          (let parts = concat (map (\<lambda>k. case dget addr k of PStr s \<Rightarrow> [s] | _ \<Rightarrow> [])
                 [''premises'', ''address_line_1'', ''address_line_2'', ''address_line_3'',
                  ''locality'', ''postal_code'', ''country''])
           in Inr (if parts \<noteq> [] then PStr (py_join '', '' parts) else PNone))
      | _ \<Rightarrow> Inl AttributeError)"

text \<open>The seven values stored for one owner, in the order of \<open>bo_fields\<close>.\<close>

definition slot_values :: "env \<Rightarrow> item \<Rightarrow> py_error + pyval list" where
  "slot_values E bo =
     (case stored_address bo of
        Inl e \<Rightarrow> Inl e
      | Inr addr \<Rightarrow>
          Inr [dget bo ''name'',
               (let ident = dget bo ''identification''
                in if truthy ident then PStr (json_dumps E ident) else PNone),
               dget bo ''ceased'',
               dget bo ''kind'',
               addr,
               dget bo ''is_sanctioned'',
               PStr (py_str E (dget_default bo ''natures_of_control'' (PStr '''')))])"

definition write_slot :: "nat \<Rightarrow> nat \<Rightarrow> pyval list \<Rightarrow> update \<Rightarrow> update" where
  "write_slot i j vs u = fold (\<lambda>(f, v) m. m(bo_col i j f \<mapsto> v)) (zip bo_fields vs) u"

text \<open>\<open>for j, bo in enumerate(active_bos[:4], start=1)\<close>, from slot \<open>j\<close> on.\<close>

fun write_slots :: "env \<Rightarrow> nat \<Rightarrow> nat \<Rightarrow> item list \<Rightarrow> update \<Rightarrow> py_error + update" where
  "write_slots E i j [] u = Inr u"
| "write_slots E i j (bo # bos) u =
     (case slot_values E bo of
        Inl e \<Rightarrow> Inl e
      | Inr vs \<Rightarrow> write_slots E i (j + 1) bos (write_slot i j vs u))"

text \<open>The branch \<open>if status == 'OK'\<close> of \<open>process_all_records\<close> for proprietor \<open>i\<close>.\<close>

definition store_active_bos :: "env \<Rightarrow> nat \<Rightarrow> item list \<Rightarrow> update \<Rightarrow> py_error + update" where
  "store_active_bos E i bos u =
     (let active_bos = fst (collect_active E bos [] 0)
      in write_slots E i 1 (take 4 active_bos) u)"

text \<open>What a slot of the update holds: the seven columns of owner \<open>j\<close> of proprietor \<open>i\<close>.\<close>

definition stored_slot :: "update \<Rightarrow> nat \<Rightarrow> nat \<Rightarrow> pyval option list" where
  "stored_slot u i j = map (\<lambda>f. u (bo_col i j f)) bo_fields"

section \<open>roe_2_find_BOs: the registry client and the resolver\<close>

text \<open>
  The registry is seen from the client: each endpoint answers the requests made to it,
  in the order they are made, with the next reply of its list. A reply is an HTTP
  status with the decoded body, or a failed request (\<open>requests.get\<close> raised). Bodies
  are typed by the registry's schema: a search page is the list of objects under
  \<open>items\<close>, a profile is an object, a controller list is the list of objects under
  \<open>items\<close>. A loop that has used all the replies has not returned: \<open>None\<close>. The
  model has no clock, so the sleeps of the retry policy and the rate limiter do not
  appear.
\<close>

datatype 'a reply = Reply nat 'a | Failed

type_synonym details = "pyval \<times> pyval \<times> pyval \<times> pyval"

type_synonym bo_result = "string \<times> item list \<times> pyval \<times> pyval"

record run_state =
  proprietor_cache :: "string \<rightharpoonup> details"
  BO_cache :: "string \<rightharpoonup> bo_result"
  search_replies :: "item list reply list"
  profile_replies :: "item reply list"
  psc_replies :: "item list reply list"

definition token_set :: "env \<Rightarrow> pyval \<Rightarrow> string set" where
  \<comment> \<open>\<open>_token_set\<close>\<close>
  "token_set E text = set (py_split E (normalise_val E text))"

definition items_per_page :: nat where
  "items_per_page = 100"

definition is_strong_oversea :: "env \<Rightarrow> item \<Rightarrow> string \<Rightarrow> bool \<times> string" where
  "is_strong_oversea E it norm_query =
     (if dget it ''company_type'' \<noteq> PStr ''oversea-company'' then (False, '''')
      else let title = py_or (dget_default it ''title'' (PStr '''')) (PStr '''');
               norm_title = normalise_val E title
           in if norm_title = norm_query then (True, ''exact name + oversea-company'')
              else if token_set E title = set (py_split E norm_query) \<and> norm_query \<noteq> []
                   then (True, ''token-set equal + oversea-company'')
                   else (False, ''''))"

definition is_strong_roe :: "env \<Rightarrow> item \<Rightarrow> string \<Rightarrow> bool \<times> string" where
  "is_strong_roe E it norm_query =
     (if dget it ''company_type'' \<noteq> PStr ''registered-overseas-entity'' then (False, '''')
      else let title = py_or (dget_default it ''title'' (PStr '''')) (PStr '''');
               norm_title = normalise_val E title
           in if norm_title = norm_query then (True, ''exact name + ROE'')
              else if token_set E title = set (py_split E norm_query) \<and> norm_query \<noteq> []
                   then (True, ''token-set equal + ROE'')
                   else (False, ''''))"

definition result_of :: "item \<Rightarrow> details" where
  "result_of it =
     (dget it ''title'', dget it ''company_number'', dget it ''address_snippet'',
      dget it ''company_status'')"

definition no_result :: details where
  "no_result = (PNone, PNone, PNone, PNone)"

text \<open>The first loop over a page: the first item that is a strong ROE match, if any.\<close>

fun scan_roe :: "env \<Rightarrow> string \<Rightarrow> item list \<Rightarrow> item option" where
  "scan_roe E norm_query [] = None"
| "scan_roe E norm_query (it # its) =
     (if fst (is_strong_roe E it norm_query) then Some it else scan_roe E norm_query its)"

text \<open>The second loop: the provisional oversea-company, exact matches preferred.\<close>

fun scan_oversea :: "env \<Rightarrow> string \<Rightarrow> item list \<Rightarrow> item option \<times> string \<Rightarrow> item option \<times> string" where
  "scan_oversea E norm_query [] acc = acc"
| "scan_oversea E norm_query (it # its) (strong_oversea, strong_oversea_reason) =
     (let (ok, reason) = is_strong_oversea E it norm_query
      in if ok
         then (let exact_bonus = (if py_in_str ''exact name'' reason then 1 else 0 :: nat);
                   current_bonus = (if prefix ''exact'' strong_oversea_reason then 1 else 0 :: nat)
               in if strong_oversea = None \<or> exact_bonus > current_bonus
                  then scan_oversea E norm_query its (Some it, reason)
                  else scan_oversea E norm_query its (strong_oversea, strong_oversea_reason))
         else scan_oversea E norm_query its (strong_oversea, strong_oversea_reason))"

text \<open>
  How the \<open>while True\<close> loop of \<open>get_company_details\<close> ends: it returns a matched ROE,
  it returns the negative result after a 404, or it breaks with the provisional
  oversea-company and the items of the first page.
\<close>

datatype search_end =
    Matched item
  | NotFound
  | Broke "item option" "item list"

fun search_loop :: "env \<Rightarrow> string \<Rightarrow> nat \<Rightarrow> item option \<times> string \<Rightarrow> item list \<Rightarrow>
    item list reply list \<Rightarrow> (search_end \<times> item list reply list) option" where
  "search_loop E norm_query start_index prov first_page_items [] = None"
| "search_loop E norm_query start_index prov first_page_items (Failed # rs) =
     search_loop E norm_query start_index prov first_page_items rs"
| "search_loop E norm_query start_index prov first_page_items (Reply status page_items # rs) =
     (if status = 200 then
        (let first_page_items = (if start_index = 0 then page_items else first_page_items)
         in case scan_roe E norm_query page_items of
              Some it \<Rightarrow> Some (Matched it, rs)
            | None \<Rightarrow>
                (let prov = scan_oversea E norm_query page_items prov
                 in if start_index = 0
                    then (if length page_items < items_per_page
                          then Some (Broke (fst prov) first_page_items, rs)
                          else search_loop E norm_query (start_index + items_per_page) prov
                                 first_page_items rs)
                    else (if length page_items < items_per_page
                          then Some (Broke (fst prov) first_page_items, rs)
                          else search_loop E norm_query (start_index + items_per_page) prov
                                 first_page_items rs)))
      else if status = 416 then Some (Broke (fst prov) first_page_items, rs)
      else if status = 404 then Some (NotFound, rs)
      else if status = 502 then search_loop E norm_query start_index prov first_page_items rs
      else if status = 429 then search_loop E norm_query start_index prov first_page_items rs
      else search_loop E norm_query start_index prov first_page_items rs)"

text \<open>
  The fallback over the snippets of the first page. A truthy snippet that is not a
  string has no \<open>split\<close>, and an unhashable \<open>company_type\<close> cannot be looked up in
  the set of allowed types: the source raises.
\<close>

definition allowed_type :: "pyval \<Rightarrow> py_error + bool" where
  "allowed_type t =
     (case t of
        PList _ \<Rightarrow> Inl TypeError
      | PDict _ \<Rightarrow> Inl TypeError
      | _ \<Rightarrow> Inr (t = PStr ''registered-overseas-entity'' \<or> t = PStr ''oversea-company''))"

fun scan_prev_names :: "env \<Rightarrow> string \<Rightarrow> item \<Rightarrow> string list \<Rightarrow> py_error + details option" where
  "scan_prev_names E norm_query it [] = Inr None"
| "scan_prev_names E norm_query it (prev_name # ps) =
     (if norm_query = normalise_text E (py_strip E prev_name)
      then (case allowed_type (dget it ''company_type'') of
              Inl e \<Rightarrow> Inl e
            | Inr True \<Rightarrow> Inr (Some (result_of it))
            | Inr False \<Rightarrow> scan_prev_names E norm_query it ps)
      else scan_prev_names E norm_query it ps)"

fun scan_snippets :: "env \<Rightarrow> string \<Rightarrow> item list \<Rightarrow> py_error + details option" where
  "scan_snippets E norm_query [] = Inr None"
| "scan_snippets E norm_query (it # its) =
     (let snippet = py_or (dget_default it ''snippet'' (PStr '''')) (PStr '''')
      in if \<not> truthy snippet then scan_snippets E norm_query its
         else (case snippet of
                 PStr s \<Rightarrow>
                   (case scan_prev_names E norm_query it (py_split_on (CHR 0xB7) s) of
                      Inl e \<Rightarrow> Inl e
                    | Inr (Some r) \<Rightarrow> Inr (Some r)
                    | Inr None \<Rightarrow> scan_snippets E norm_query its)
               | _ \<Rightarrow> Inl AttributeError))"

text \<open>
  \<open>get_company_details\<close>: the result, or the exception that ends the run, with the
  state after the call; \<open>None\<close> when the retry loop has not returned.
\<close>

definition cache_details :: "run_state \<Rightarrow> string \<Rightarrow> details \<Rightarrow> item list reply list \<Rightarrow> run_state" where
  "cache_details st norm_query result rs =
     st\<lparr>proprietor_cache := (proprietor_cache st)(norm_query \<mapsto> result), search_replies := rs\<rparr>"

definition get_company_details :: "env \<Rightarrow> string \<Rightarrow> run_state \<Rightarrow> ((py_error + details) \<times> run_state) option" where
  "get_company_details E company_name st =
     (let norm_query = normalise_text E company_name
      in case proprietor_cache st norm_query of
           Some cached \<Rightarrow> Some (Inr cached, st)
         | None \<Rightarrow>
             (case search_loop E norm_query 0 (None, '''') [] (search_replies st) of
                None \<Rightarrow> None
              | Some (Matched it, rs) \<Rightarrow>
                  Some (Inr (result_of it), cache_details st norm_query (result_of it) rs)
              | Some (NotFound, rs) \<Rightarrow>
                  Some (Inr no_result, cache_details st norm_query no_result rs)
              | Some (Broke strong_oversea first_page_items, rs) \<Rightarrow>
                  (if (case strong_oversea of None \<Rightarrow> False | Some it \<Rightarrow> it \<noteq> [])
                   then Some (Inr (result_of (the strong_oversea)),
                              cache_details st norm_query (result_of (the strong_oversea)) rs)
                   else (case scan_snippets E norm_query first_page_items of
                           Inl e \<Rightarrow> Some (Inl e, st\<lparr>search_replies := rs\<rparr>)
                         | Inr (Some r) \<Rightarrow> Some (Inr r, cache_details st norm_query r rs)
                         | Inr None \<Rightarrow>
                             Some (Inr no_result, cache_details st norm_query no_result rs)))))"

text \<open>\<open>get_company_profile\<close> and \<open>get_BO_list\<close>: the retry loops of the two fetches.\<close>

fun get_company_profile :: "item reply list \<Rightarrow> (item option \<times> item reply list) option" where
  "get_company_profile [] = None"
| "get_company_profile (Failed # rs) = get_company_profile rs"
| "get_company_profile (Reply status body # rs) =
     (if status = 200 then Some (Some body, rs)
      else if status = 404 \<or> status = 403 then Some (None, rs)
      else if status = 502 then get_company_profile rs
      else if status = 429 then get_company_profile rs
      else get_company_profile rs)"

fun get_BO_list :: "item list reply list \<Rightarrow> (item list \<times> item list reply list) option" where
  "get_BO_list [] = None"
| "get_BO_list (Failed # rs) = get_BO_list rs"
| "get_BO_list (Reply status body # rs) =
     (if status = 200 then Some (body, rs)
      else if status = 404 \<or> status = 403 then Some ([], rs)
      else if status = 502 then get_BO_list rs
      else if status = 429 then get_BO_list rs
      else get_BO_list rs)"

definition format_address :: "pyval \<Rightarrow> pyval" where
  "format_address addr =
     (case addr of
        PDict d \<Rightarrow>
          (let parts = concat (map (\<lambda>k. case dget d k of PStr s \<Rightarrow> [s] | _ \<Rightarrow> [])
                 [''premises'', ''address_line_1'', ''address_line_2'', ''locality'', ''region'',
                  ''postal_code'', ''country''])
           in py_or (PStr (py_join '', '' (filter (\<lambda>p. p \<noteq> []) parts))) PNone)
      | _ \<Rightarrow> PNone)"

definition pick_company_address :: "env \<Rightarrow> item option \<Rightarrow> pyval \<Rightarrow> pyval \<Rightarrow> pyval" where
  "pick_company_address E profile company_type snippet =
     (case profile of
        None \<Rightarrow> snippet
      | Some p \<Rightarrow>
          if p = [] then snippet
          else if company_type = PStr ''registered-overseas-entity'' \<or>
                  py_str E (dget p ''type'') = ''registered-overseas-entity''
          then py_or (format_address (dget p ''principal_office_address''))
                 (py_or (format_address (dget p ''registered_office_address'')) snippet)
          else py_or (format_address (dget p ''registered_office_address'')) snippet)"

definition cache_bos :: "run_state \<Rightarrow> string \<Rightarrow> bo_result \<Rightarrow> run_state" where
  "cache_bos st norm_key result = st\<lparr>BO_cache := (BO_cache st)(norm_key \<mapsto> result)\<rparr>"

definition find_BOs_for_company :: "env \<Rightarrow> string \<Rightarrow> run_state \<Rightarrow> ((py_error + bo_result) \<times> run_state) option" where
  "find_BOs_for_company E raw_company_name st =
     (let norm_key = normalise_text E raw_company_name
      in case BO_cache st norm_key of
           Some cached \<Rightarrow> Some (Inr cached, st)
         | None \<Rightarrow>
             (case get_company_details E raw_company_name st of
                None \<Rightarrow> None
              | Some (Inl e, st1) \<Rightarrow> Some (Inl e, st1)
              | Some (Inr (proper_name, num, snippet, search_company_status), st1) \<Rightarrow>
                  if \<not> truthy num
                  then (let result = (''No company found'', [], PNone, PNone)
                        in Some (Inr result, cache_bos st1 norm_key result))
                  else (case get_company_profile (profile_replies st1) of
                          None \<Rightarrow> None
                        | Some (profile, prs) \<Rightarrow>
                            (let company_type =
                                   py_or (case profile of
                                            None \<Rightarrow> PStr ''''
                                          | Some p \<Rightarrow> if p = [] then PStr '''' else dget p ''type'')
                                     (PStr '''');
                                 chosen_addr = pick_company_address E profile company_type snippet
                             in case get_BO_list (psc_replies st1) of
                                  None \<Rightarrow> None
                                | Some (items, brs) \<Rightarrow>
                                    (let result = (if items \<noteq> [] then (''OK'', items, chosen_addr, num)
                                                   else (''No BO'', [], chosen_addr, num));
                                         st2 = st1\<lparr>profile_replies := prs, psc_replies := brs\<rparr>
                                     in Some (Inr result, cache_bos st2 norm_key result))))))"

section \<open>roe_2_find_BOs: one proprietor and one row of process_all_records\<close>

text \<open>
  The body of \<open>for i in range(1, 5)\<close>: clear the columns of proprietor \<open>i\<close>, resolve
  the name if there is one, record address and number, and either store the active
  owners (status \<open>OK\<close>) or record the failure.
\<close>

definition proprietor_step :: "env \<Rightarrow> nat \<Rightarrow> string option \<Rightarrow> run_state \<Rightarrow> update \<Rightarrow>
    ((py_error + update) \<times> run_state) option" where
  "proprietor_step E i prop st u0 =
     (let u = clear_fields i u0
      in case prop of
           None \<Rightarrow> Some (Inr u, st)
         | Some p \<Rightarrow>
             if p = [] \<or> py_strip E p = [] then Some (Inr u, st)
             else (case find_BOs_for_company E p st of
                     None \<Rightarrow> None
                   | Some (Inl e, st1) \<Rightarrow> Some (Inl e, st1)
                   | Some (Inr (status, bos, reg_address, comp_number), st1) \<Rightarrow>
                       (let u = (if truthy reg_address then u(prop_col i ''address'' \<mapsto> reg_address)
                                 else u);
                            u = (if truthy comp_number
                                 then u(prop_col i ''number'' \<mapsto> PStr (py_str E comp_number))
                                 else u)
                        in if status = ''OK'' then Some (store_active_bos E i bos u, st1)
                           else Some (Inr (u(prop_col i ''BO_failure'' \<mapsto> PStr status)), st1))))"

fun process_proprietors :: "env \<Rightarrow> (string \<Rightarrow> string option) \<Rightarrow> nat list \<Rightarrow> run_state \<Rightarrow> update \<Rightarrow>
    ((py_error + update) \<times> run_state) option" where
  "process_proprietors E record [] st u = Some (Inr u, st)"
| "process_proprietors E record (i # is) st u =
     (case proprietor_step E i (record (prop_col i ''name'')) st u of
        None \<Rightarrow> None
      | Some (Inl e, st1) \<Rightarrow> Some (Inl e, st1)
      | Some (Inr u1, st1) \<Rightarrow> process_proprietors E record is st1 u1)"

text \<open>The update computed for one row, before it is written to the table.\<close>

definition process_record :: "env \<Rightarrow> (string \<Rightarrow> string option) \<Rightarrow> run_state \<Rightarrow>
    ((py_error + update) \<times> run_state) option" where
  "process_record E record st =
     (case process_proprietors E record [1, 2, 3, 4] st Map.empty of
        None \<Rightarrow> None
      | Some (Inl e, st1) \<Rightarrow> Some (Inl e, st1)
      | Some (Inr u, st1) \<Rightarrow> Some (Inr (u(''status'' \<mapsto> PStr ''BOs added'')), st1))"

section \<open>roe_5_categorise_BOs: the classification of beneficial owners\<close>

definition controls_as_trust_string :: string where
  "controls_as_trust_string = ''-as-trust-''"

definition SKIP_GEO :: bool where
  "SKIP_GEO = False"

text \<open>\<open>s.replace(old, '')\<close> for a non-empty \<open>old\<close>: the occurrences are removed left to right.\<close>

fun py_remove :: "string \<Rightarrow> string \<Rightarrow> string" where
  "py_remove old [] = []"
| "py_remove old (x # xs) =
     (if prefix old (x # xs) \<and> old \<noteq> []
      then py_remove old (drop (length old - 1) xs)
      else x # py_remove old xs)"

text \<open>\<open>s.strip(chars)\<close>.\<close>

definition py_strip_chars :: "string \<Rightarrow> string \<Rightarrow> string" where
  "py_strip_chars chars s =
     rev (dropWhile (\<lambda>c. c \<in> set chars) (rev (dropWhile (\<lambda>c. c \<in> set chars) s)))"

definition is_listed_company :: "env \<Rightarrow> string option \<Rightarrow> bool" where
  "is_listed_company E company_name =
     (case company_name of
        None \<Rightarrow> False
      | Some n \<Rightarrow>
          if n = [] then False
          else extractOne E (normalise_text E n) (all_listed_companies E) 95)"

definition is_it_excluded :: "env \<Rightarrow> string option \<Rightarrow> bool" where
  "is_it_excluded E company_name =
     ((case company_name of None \<Rightarrow> [] | Some n \<Rightarrow> normalise_text E n) \<in> set (manual_exclusions E))"

definition is_government_owned :: "env \<Rightarrow> string option \<Rightarrow> bool" where
  "is_government_owned E company_name =
     (case company_name of
        None \<Rightarrow> False
      | Some n \<Rightarrow>
          if n = [] then False
          else if py_in_str (py_lower E ''government'') (py_lower E n) \<or>
                  py_in_str (py_lower E ''central bank'') (py_lower E n) \<or>
                  py_in_str (py_lower E ''investment authority'') (py_lower E n)
          then True
          else extractOne E (normalise_text E n) (normalised_government_companies E) 95)"

definition uk_terms :: "string list" where
  "uk_terms =
     [''uk'', ''england'', ''english'', ''scotland'', ''wales'', ''northern ireland'', ''united kingdom'',
      ''england and wales'', ''england & wales'', ''united kingdom (england and wales)'',
      ''uk and wales'', ''united kingdom england'', ''u.k'', ''england, uk'',
      ''scotland united kingdom'', ''gbeng'', ''gbsct'', ''great britain'', ''united kingdom (scotland)'',
      ''london'', ''gbr'', ''cardiff'', ''e&w'', ''england, united kingdom'', ''britain'', ''uk/england'',
      ''cardiff, wales'', ''uk/scotland'', ''gb'', ''companies house'', ''n. ireland'', ''edinburgh'',
      ''uk, yorkshire'', ''companies house - registrar of companies'',
      ''northern ireland, united kingdom'', ''london, england'', ''belfast'', ''eng'', ''u k'',
      ''england and wales, england'', ''west yorkshire'', ''english law'']"

definition is_uk_a_fuzzy_match :: "env \<Rightarrow> string \<Rightarrow> bool" where
  "is_uk_a_fuzzy_match E country =
     (let normalised = py_strip E (py_remove ''registered in'' (py_lower E country))
      in list_ex (\<lambda>term. fuzz_ratio E normalised term \<ge> 85) uk_terms)"

definition excluded_terms :: "string list" where
  "excluded_terms = [''jersey'', ''isle of man'', ''guernsey'', ''netherlands'']"

definition corporate_kinds :: "string list" where
  "corporate_kinds =
     [''corporate-entity-person-with-significant-control'', ''corporate-entity-beneficial-owner'',
      ''legal-person-beneficial-owner'']"

text \<open>
  One operand \<open>x and is_uk_a_fuzzy_match(x)\<close> of the legal-form test: a falsy value is
  false, a string is matched, anything else has no \<open>lower\<close> and raises.
\<close>

definition uk_field :: "env \<Rightarrow> pyval \<Rightarrow> py_error + bool" where
  "uk_field E v =
     (if \<not> truthy v then Inr False
      else case v of PStr s \<Rightarrow> Inr (is_uk_a_fuzzy_match E s) | _ \<Rightarrow> Inl AttributeError)"

text \<open>
  The legal-form test: \<open>json.loads\<close>, then the three fields in the order of the \<open>or\<close>.
  Only \<open>JSONDecodeError\<close> is caught; a decoded value that is not an object has no
  \<open>get\<close>.
\<close>

definition legal_form_in_uk :: "env \<Rightarrow> string \<Rightarrow> py_error + bool" where
  "legal_form_in_uk E legal_form_str =
     (case json_loads E legal_form_str of
        None \<Rightarrow> Inr False
      | Some (PDict legal_form) \<Rightarrow>
          (case uk_field E (dget_default legal_form ''legal_authority'' (PStr '''')) of
             Inl e \<Rightarrow> Inl e
           | Inr True \<Rightarrow> Inr True
           | Inr False \<Rightarrow>
               (case uk_field E (dget_default legal_form ''country_registered'' (PStr '''')) of
                  Inl e \<Rightarrow> Inl e
                | Inr True \<Rightarrow> Inr True
                | Inr False \<Rightarrow> uk_field E (dget_default legal_form ''place_registered'' (PStr ''''))))
      | Some _ \<Rightarrow> Inl AttributeError)"

text \<open>
  The coordinate fallback. \<open>geo_within_uk E a b\<close> stands for: \<open>float(a)\<close> and \<open>float(b)\<close>
  succeed and \<open>is_within_uk\<close> holds of them (a \<open>ValueError\<close> is caught and means no).
\<close>

definition latlon_in_uk :: "env \<Rightarrow> string \<Rightarrow> bool" where
  "latlon_in_uk E latlon_str =
     (let cleaned_str = py_strip_chars ''()'' (py_strip E latlon_str);
          parts = py_split_on CHR '','' cleaned_str
      in if length parts = 2 then geo_within_uk E (parts ! 0) (parts ! 1) else False)"

definition str_truthy :: "string option \<Rightarrow> bool" where
  "str_truthy v = (case v of None \<Rightarrow> False | Some s \<Rightarrow> s \<noteq> [])"

definition ends_with_excluded :: "env \<Rightarrow> string \<Rightarrow> bool" where
  "ends_with_excluded E bo_address =
     list_ex (\<lambda>term. suffix term (py_strip E (py_lower E bo_address))) excluded_terms"

definition in_uk_check :: "env \<Rightarrow> (string \<Rightarrow> string option) \<Rightarrow> nat \<Rightarrow> nat \<Rightarrow> py_error + bool" where
  "in_uk_check E row i j =
     (let bo_address = (case row (bo_col i j ''address'') of None \<Rightarrow> [] | Some a \<Rightarrow> a)
      in if \<not> ends_with_excluded E bo_address
         then (case (if str_truthy (row (bo_col i j ''legal_form''))
                     then legal_form_in_uk E (the (row (bo_col i j ''legal_form'')))
                     else Inr False) of
                 Inl e \<Rightarrow> Inl e
               | Inr in_uk \<Rightarrow>
                   if \<not> in_uk \<and> \<not> SKIP_GEO
                   then (if str_truthy (row (bo_col i j ''latlon''))
                         then Inr (latlon_in_uk E (the (row (bo_col i j ''latlon''))))
                         else Inr False)
                   else Inr in_uk)
         else Inr False)"

text \<open>
  The natures of control: the comprehension that drops \<open>None\<close> needs an iterable, and
  \<open>"-as-trust-" in s\<close> needs a string or a container; \<open>any\<close> stops at the first hit.
\<close>

definition py_iter :: "pyval \<Rightarrow> py_error + pyval list" where
  "py_iter v =
     (case v of
        PList xs \<Rightarrow> Inr xs
      | PStr s \<Rightarrow> Inr (map (\<lambda>c. PStr [c]) s)
      | PDict kv \<Rightarrow> Inr (map (\<lambda>(k, _). PStr k) kv)
      | _ \<Rightarrow> Inl TypeError)"

fun any_trust :: "pyval list \<Rightarrow> py_error + bool" where
  "any_trust [] = Inr False"
| "any_trust (s # ss) =
     (case (case s of
              PStr t \<Rightarrow> Inr (py_in_str controls_as_trust_string t)
            | PList xs \<Rightarrow> Inr (PStr controls_as_trust_string \<in> set xs)
            | PDict kv \<Rightarrow> Inr (controls_as_trust_string \<in> fst ` set kv)
            | _ \<Rightarrow> Inl TypeError) of
        Inl e \<Rightarrow> Inl e
      | Inr True \<Rightarrow> Inr True
      | Inr False \<Rightarrow> any_trust ss)"

definition trustee_control :: "env \<Rightarrow> string option \<Rightarrow> nat \<Rightarrow> nat \<Rightarrow> string option \<Rightarrow> py_error + bool" where
  "trustee_control E title i j natures_of_control_string =
     (if str_truthy natures_of_control_string
      then (case literal_eval E (the natures_of_control_string) of
              Inl e \<Rightarrow>
                if e = ValueError \<or> e = SyntaxError
                then Inl (Invalid_natures_of_control title i j (the natures_of_control_string))
                else Inl e
            | Inr v \<Rightarrow>
                (case py_iter v of
                   Inl e \<Rightarrow> Inl e
                 | Inr xs \<Rightarrow> any_trust (filter (\<lambda>x. x \<noteq> PNone) xs)))
      else any_trust [])"

text \<open>
  The body of \<open>for j in range(1, 5)\<close>: \<open>None\<close> for a slot without a kind
  (\<open>continue\<close>), else the status with the increments of the four counters (listed,
  government, manual, trustees).
\<close>

definition bo_status :: "env \<Rightarrow> (string \<Rightarrow> string option) \<Rightarrow> nat \<Rightarrow> nat \<Rightarrow>
    py_error + (string \<times> nat \<times> nat \<times> nat \<times> nat) option" where
  "bo_status E row i j =
     (if \<not> str_truthy (row (bo_col i j ''kind'')) then Inr None
      else
        (let bo_kind = py_strip E (the (row (bo_col i j ''kind'')))
         in if bo_kind = ''individual-beneficial-owner'' then Inr (Some (''individual'', 0, 0, 0, 0))
            else if bo_kind = ''super-secure-beneficial-owner'' then Inr (Some (''super-secure'', 0, 0, 0, 0))
            else if bo_kind \<in> set corporate_kinds then
              (case in_uk_check E row i j of
                 Inl e \<Rightarrow> Inl e
               | Inr in_uk \<Rightarrow>
                   (case trustee_control E (row ''property_title_number'') i j
                           (row (bo_col i j ''natures_of_control'')) of
                      Inl e \<Rightarrow> Inl e
                    | Inr trustee \<Rightarrow>
                        (let bo_name = row (bo_col i j ''name'')
                         in if in_uk then Inr (Some (''UK'', 0, 0, 0, 0))
                            else if is_listed_company E bo_name then Inr (Some (''listed'', 1, 0, 0, 0))
                            else if is_government_owned E bo_name
                                 then Inr (Some (''government-owned'', 0, 1, 0, 0))
                            else if is_it_excluded E bo_name
                                 then Inr (Some (''manually checked'', 0, 0, 1, 0))
                            else if trustee then Inr (Some (''trustee'', 0, 0, 0, 1))
                            else Inr (Some (''suspect'', 0, 0, 0, 0)))))
            else Inr (Some (''suspect'', 0, 0, 0, 0))))"







section \<open>An environment for plain ASCII data\<close>

text \<open>
  A concrete environment on which the definitions can be run: no token file, no
  reference lists, exact matching in place of the fuzzy scorers, and parsers that
  accept nothing (\<open>literal_eval\<close> raises \<open>ValueError\<close>, as it does on a bare word).
  Examples override the fields they need.
\<close>

definition ascii_env :: env where
  "ascii_env = \<lparr> u_lower = id, u_fold = id, u_space = (\<lambda>_. False), u_word = (\<lambda>_. False),
     token_file = [], json_dumps = (\<lambda>_. ''{}''), json_loads = (\<lambda>_. None),
     literal_eval = (\<lambda>_. Inl ValueError), py_repr = (\<lambda>_. ''None''),
     fuzz_ratio = (\<lambda>a b. if a = b then 100 else 0),
     extractOne = (\<lambda>q cs cutoff. q \<in> set cs), geo_within_uk = (\<lambda>_ _. False),
     all_listed_companies = [], normalised_government_companies = [], manual_exclusions = [] \<rparr>"

definition empty_state :: run_state where
  "empty_state = \<lparr> proprietor_cache = Map.empty, BO_cache = Map.empty, search_replies = [],
     profile_replies = [], psc_replies = [] \<rparr>"

section \<open>Vocabulary for the statements about the resolver\<close>

text \<open>The number of name-search requests issued between two states of a run.\<close>

definition search_requests :: "run_state \<Rightarrow> run_state \<Rightarrow> nat" where
  "search_requests st st' = length (search_replies st) - length (search_replies st')"

text \<open>
  A reply after which the search loop goes on to the next request without having
  found a strong ROE match: a failed request, a status that is retried, or a full
  page of results without such a match.
\<close>

fun passed_over :: "env \<Rightarrow> string \<Rightarrow> item list reply \<Rightarrow> bool" where
  "passed_over E norm_query Failed = True"
| "passed_over E norm_query (Reply status page_items) =
     (if status = 200 then scan_roe E norm_query page_items = None \<and> \<not> length page_items < items_per_page
      else status \<noteq> 416 \<and> status \<noteq> 404)"

section \<open>Example data for the classification\<close>

text \<open>
  The text \<open>{"country_registered": "England"}\<close> of a stored legal form, a \<open>json.loads\<close>
  that decodes it, and a row with one corporate owner whose natures of control do not
  parse.
\<close>

definition example_legal_form :: string where
  "example_legal_form =
     ''{'' @ [CHR 0x22] @ ''country_registered'' @ [CHR 0x22] @ '': '' @ [CHR 0x22] @ ''England'' @
     [CHR 0x22] @ ''}''"

definition example_json_loads :: "string \<Rightarrow> pyval option" where
  "example_json_loads s =
     (if s = example_legal_form then Some (PDict [(''country_registered'', PStr ''England'')])
      else None)"

definition uk_env :: env where
  "uk_env = ascii_env\<lparr>json_loads := example_json_loads\<rparr>"

definition corporate_row :: "string \<Rightarrow> string option" where
  "corporate_row =
     [''property_title_number'' \<mapsto> ''T1'',
      bo_col 1 1 ''kind'' \<mapsto> ''corporate-entity-beneficial-owner'',
      bo_col 1 1 ''name'' \<mapsto> ''Acme Holdings'',
      bo_col 1 1 ''address'' \<mapsto> ''1 High Street, London'',
      bo_col 1 1 ''legal_form'' \<mapsto> example_legal_form]"

definition malformed_row :: "string \<Rightarrow> string option" where
  "malformed_row = corporate_row(bo_col 1 1 ''natures_of_control'' \<mapsto> ''garbage'')"

definition individual_row :: "string \<Rightarrow> string option" where
  "individual_row =
     [''property_title_number'' \<mapsto> ''T1'',
      bo_col 1 1 ''kind'' \<mapsto> ''individual-beneficial-owner'',
      bo_col 1 1 ''natures_of_control'' \<mapsto> ''garbage'']"

definition jersey_row :: "string \<Rightarrow> string option" where
  "jersey_row = corporate_row(bo_col 1 1 ''address'' \<mapsto> ''1 Esplanade, St Helier, Jersey'')"

section \<open>Running the definitions on concrete data\<close>

lemmas run_defs =
  ascii_env_def empty_state_def
  is_ascii_def is_az09_def ascii_upper_def ascii_lower_def py_isspace_def re_word_def
  py_lower_def py_strip_def py_lstrip_def py_split_def py_split_on_def py_fold_def
  dget_def dget_default_def py_or_def py_str_def
  re_boundary_def pat_sarl_def pat_spa_def pat_bv_def pat_gmbh_def
  load_tokens_def TOKENS_TO_REMOVE_def match_tokens_def normalise_text_def normalise_val_def
  is_ceased_beneficial_owner_def stored_address_def slot_values_def
  token_set_def items_per_page_def is_strong_oversea_def is_strong_roe_def result_of_def
  no_result_def allowed_type_def cache_details_def get_company_details_def
  format_address_def pick_company_address_def cache_bos_def find_BOs_for_company_def

section \<open>Facts about the stored slots\<close>















section \<open>The client's handling of not-found and forbidden replies\<close>

text \<open>
  C9 (the code at the failing input). The profile fetch and the controller-list fetch
  return at once on 403, with nothing and with no controllers. The name search does
  not: a 403 is passed over like any unexpected status and the next reply is awaited,
  so a 403 followed by a matching page resolves the name from the second request,
  and a 403 alone never returns.
\<close>

theorem name_search_retries_forbidden:
  "get_company_profile (Reply 403 p # prs) = Some (None, prs) \<and>
   get_BO_list (Reply 403 b # brs) = Some ([], brs) \<and>
   search_loop E norm_query start_index prov first_page_items (Reply 403 page # rs)
     = search_loop E norm_query start_index prov first_page_items rs \<and>
   search_loop E norm_query start_index prov first_page_items [Reply 403 page] = None \<and>
   get_company_details ascii_env ''Gable''
       (empty_state\<lparr>search_replies :=
          [Reply 403 [],
           Reply 200 [[(''company_type'', PStr ''registered-overseas-entity''),
                       (''title'', PStr ''GABLE''), (''company_number'', PStr ''OE000001'')]]]\<rparr>)
     = Some (Inr (PStr ''GABLE'', PStr ''OE000001'', PNone, PNone),
             empty_state\<lparr>proprietor_cache :=
                [''gable'' \<mapsto> (PStr ''GABLE'', PStr ''OE000001'', PNone, PNone)]\<rparr>)"
  by (simp add: run_defs)

section \<open>The failure recorded for a proprietor without active controllers\<close>

text \<open>
  C2 (the code at the failing input). The name resolves to a number and the registry
  returns one controller, which is ceased. The status is decided on the raw list,
  before the ceased filter: it is \<open>OK\<close>, so the failure column is left cleared
  (\<open>None\<close>) instead of \<open>No BO\<close>, and no owner is stored.
\<close>

theorem all_ceased_is_not_recorded_as_no_bo:
  "\<exists>u st1. proprietor_step ascii_env 1 (Some ''Gable Ltd'')
           (empty_state\<lparr>search_replies :=
                [Reply 200 [[(''company_type'', PStr ''registered-overseas-entity''),
                             (''title'', PStr ''GABLE LTD''), (''company_number'', PStr ''OE000001'')]]],
              profile_replies := [Reply 404 []],
              psc_replies := [Reply 200 [[(''name'', PStr ''A''), (''ceased_on'', PStr ''2023-01-01'')]]]\<rparr>)
           Map.empty = Some (Inr u, st1) \<and>
         u (prop_col 1 ''BO_failure'') = Some PNone \<and>
         u (prop_col 1 ''number'') = Some (PStr ''OE000001'') \<and>
         stored_slot u 1 1 =
           [Some PNone, Some PNone, Some PNone, Some PNone, Some PNone, Some PNone, Some PNone]"
  by (simp add: run_defs proprietor_step_def store_active_bos_def clear_fields_def clear_slot_def
      bo_fields_def stored_slot_def prop_col_def bo_col_def digit_def Let_def)

section \<open>Facts about characters\<close>

lemma az09_ascii: "is_az09 c \<Longrightarrow> is_ascii c"
  by (auto simp: is_az09_def is_ascii_def Let_def)

lemma az09_not_space: "is_az09 c \<Longrightarrow> \<not> py_isspace E c"
  by (auto simp: is_az09_def py_isspace_def is_ascii_def Let_def)

lemma az09_word: "is_az09 c \<Longrightarrow> re_word E c"
  by (auto simp: re_word_def az09_ascii)

lemma az09_not_dot: "is_az09 c \<Longrightarrow> c \<noteq> CHR ''.''"
  by (auto simp: is_az09_def Let_def)

lemma space_not_word: "is_ascii c \<Longrightarrow> py_isspace E c \<Longrightarrow> \<not> re_word E c"
  by (auto simp: re_word_def py_isspace_def is_az09_def ascii_upper_def Let_def)

lemma az09_lower: "is_az09 c \<Longrightarrow> ascii_lower c = c"
proof -
  assume a: "is_az09 c"
  have notin: "c \<notin> set ''ABCDEFGHIJKLMNOPQRSTUVWXYZ''"
    using a by (auto simp: is_az09_def Let_def)
  have len: "length ''ABCDEFGHIJKLMNOPQRSTUVWXYZ'' = length ''abcdefghijklmnopqrstuvwxyz''"
    by simp
  have "map_of (zip ''ABCDEFGHIJKLMNOPQRSTUVWXYZ'' ''abcdefghijklmnopqrstuvwxyz'') c = None"
    using map_of_zip_is_None[OF len, of c] notin by blast
  then show ?thesis unfolding ascii_lower_def by (simp only: option.case)
qed

lemma py_lower_az09: "list_all is_az09 w \<Longrightarrow> py_lower E w = w"
  by (auto simp: py_lower_def list_all_iff az09_ascii az09_lower map_idI)

lemma py_fold_az09: "list_all is_az09 w \<Longrightarrow> py_fold E w = w"
  by (auto simp: py_fold_def list_all_iff az09_ascii)

lemma py_strip_subset: "set (py_strip E s) \<subseteq> set s"
proof -
  have "set (py_strip E s) \<subseteq> set (dropWhile (py_isspace E) s)"
    unfolding py_strip_def using set_dropWhileD by fastforce
  also have "\<dots> \<subseteq> set s" using set_dropWhileD by fastforce
  finally show ?thesis .
qed

lemma py_strip_no_space: "\<forall>c\<in>set s. \<not> py_isspace E c \<Longrightarrow> py_strip E s = s"
proof -
  assume a: "\<forall>c\<in>set s. \<not> py_isspace E c"
  then have 1: "dropWhile (py_isspace E) s = s" by (cases s) auto
  from a have 2: "dropWhile (py_isspace E) (rev s) = rev s" by (cases "rev s") auto
  show ?thesis by (simp add: py_strip_def 1 2)
qed

section \<open>Facts about substitution\<close>

lemma re_sub_subset: "set (re_sub m repl prev t) \<subseteq> set repl \<union> set t"
proof (induction m repl prev t rule: re_sub.induct)
  case (1 m repl prev)
  then show ?case by simp
next
  case (2 m repl prev x xs)
  show ?case
  proof (cases "m prev (x # xs)")
    case None
    with 2 show ?thesis by auto
  next
    case (Some n)
    show ?thesis
    proof (cases "0 < n")
      case True
      have "set (drop n (x # xs)) \<subseteq> set (x # xs)" by (rule set_drop_subset)
      moreover have "set (re_sub m repl (Some (last (take n (x # xs)))) (drop n (x # xs)))
          \<subseteq> set repl \<union> set (drop n (x # xs))"
        using 2 Some True by blast
      ultimately show ?thesis using Some True by auto
    next
      case False
      moreover have "set (re_sub m repl (Some x) xs) \<subseteq> set repl \<union> set xs"
        using 2 Some False by blast
      ultimately show ?thesis using Some by auto
    qed
  qed
qed

lemma normalise_text_az09: "list_all is_az09 (normalise_text E s)"
proof -
  have "c \<in> set (normalise_text E s) \<Longrightarrow> is_az09 c" for c
  proof -
    assume "c \<in> set (normalise_text E s)"
    then obtain t where c1: "c \<in> set (filter (\<lambda>c. \<not> py_isspace E c)
        (re_sub (match_tokens E (TOKENS_TO_REMOVE E)) [] None (filter (\<lambda>c. is_az09 c \<or> py_isspace E c) t)))"
      unfolding normalise_text_def Let_def using py_strip_subset by blast
    then have "\<not> py_isspace E c" by simp
    moreover from c1 have "c \<in> set (filter (\<lambda>c. is_az09 c \<or> py_isspace E c) t)"
      using re_sub_subset[of "match_tokens E (TOKENS_TO_REMOVE E)" "[]" None] by fastforce
    ultimately show "is_az09 c" by simp
  qed
  then show ?thesis by (simp add: list_all_iff)
qed

lemma normalise_text_no_space: "c \<in> set (normalise_text E s) \<Longrightarrow> \<not> py_isspace E c"
  using normalise_text_az09[of E s] by (auto simp: list_all_iff az09_not_space)

lemma normalise_val_az09: "list_all is_az09 (normalise_val E v)"
  by (cases v) (simp_all add: normalise_val_def normalise_text_az09)

section \<open>Facts about splitting\<close>

lemma split_acc_no_space:
  "\<forall>c\<in>set w. \<not> py_isspace E c \<Longrightarrow> split_acc E w acc = (if acc @ w = [] then [] else [acc @ w])"
  by (induction w arbitrary: acc) auto

lemma py_split_no_space:
  "\<forall>c\<in>set w. \<not> py_isspace E c \<Longrightarrow> py_split E w = (if w = [] then [] else [w])"
  by (simp add: py_split_def split_acc_no_space)

lemma py_split_az09: "list_all is_az09 w \<Longrightarrow> py_split E w = (if w = [] then [] else [w])"
  by (rule py_split_no_space) (auto simp: list_all_iff az09_not_space)

lemma token_set_eq_iff:
  assumes "list_all is_az09 q" "q \<noteq> []"
  shows "token_set E title = set (py_split E q) \<longleftrightarrow> normalise_val E title = q"
proof -
  have "py_split E (normalise_val E title) =
          (if normalise_val E title = [] then [] else [normalise_val E title])"
    by (rule py_split_az09) (rule normalise_val_az09)
  moreover have "py_split E q = [q]" using assms by (simp add: py_split_az09)
  ultimately show ?thesis using assms(2) by (auto simp: token_set_def)
qed

lemma strong_roe_iff_exact:
  assumes "norm_query = normalise_text E name"
  shows "fst (is_strong_roe E it norm_query) \<longleftrightarrow>
           dget it ''company_type'' = PStr ''registered-overseas-entity'' \<and>
           normalise_val E (py_or (dget_default it ''title'' (PStr '''')) (PStr '''')) = norm_query"
proof (cases "norm_query = []")
  case True
  then show ?thesis by (simp add: is_strong_roe_def Let_def)
next
  case False
  have "list_all is_az09 norm_query" using assms by (simp add: normalise_text_az09)
  from token_set_eq_iff[OF this False] show ?thesis
    by (simp add: is_strong_roe_def Let_def)
qed

section \<open>The normal form is a single token\<close>

text \<open>
  C10. The normal form of any string contains no whitespace; so the token set of a
  string has at most one element, and for a query whose normal form is not empty the
  token-set test of the strong-match predicates (with its guard \<open>bool(norm_query)\<close>)
  holds exactly when the exact test does.
\<close>

theorem normal_form_is_one_token:
  "(\<forall>c\<in>set (normalise_text E s). \<not> py_isspace E c) \<and>
   card (token_set E (PStr s)) \<le> 1 \<and>
   (normalise_text E name \<noteq> [] \<longrightarrow>
      ((token_set E title = set (py_split E (normalise_text E name)) \<and> normalise_text E name \<noteq> [])
        \<longleftrightarrow> normalise_val E title = normalise_text E name))"
proof (intro conjI impI)
  show "\<forall>c\<in>set (normalise_text E s). \<not> py_isspace E c"
    using normalise_text_no_space by blast
next
  have "py_split E (normalise_text E s) = (if normalise_text E s = [] then [] else [normalise_text E s])"
    by (rule py_split_az09) (rule normalise_text_az09)
  then show "card (token_set E (PStr s)) \<le> 1"
    by (simp add: token_set_def normalise_val_def)
next
  assume ne: "normalise_text E name \<noteq> []"
  have "list_all is_az09 (normalise_text E name)" by (rule normalise_text_az09)
  from token_set_eq_iff[OF this ne, of E title] ne
  show "(token_set E title = set (py_split E (normalise_text E name)) \<and> normalise_text E name \<noteq> [])
        \<longleftrightarrow> normalise_val E title = normalise_text E name"
    by simp
qed

theorem normal_form_is_one_token_witness:
  "normalise_text ascii_env ''Gable Ltd'' \<noteq> [] \<and>
   normalise_val ascii_env (PStr ''GABLE  LTD.'') = normalise_text ascii_env ''Gable Ltd'' \<and>
   token_set ascii_env (PStr ''GABLE  LTD.'') = set (py_split ascii_env (normalise_text ascii_env ''Gable Ltd''))"
proof -
  have ne: "normalise_text ascii_env ''Gable Ltd'' \<noteq> []"
    by (simp add: run_defs)
  have ex: "normalise_val ascii_env (PStr ''GABLE  LTD.'') = normalise_text ascii_env ''Gable Ltd''"
    by (simp add: run_defs)
  from normal_form_is_one_token[of ascii_env "''Gable Ltd''" "''Gable Ltd''" "PStr ''GABLE  LTD.''"] ne ex
  show ?thesis by blast
qed

section \<open>The resolver\<close>

lemma scan_roe_Some:
  "scan_roe E nq page = Some it \<Longrightarrow>
     \<exists>ys zs. page = ys @ it # zs \<and> fst (is_strong_roe E it nq) \<and>
             (\<forall>y\<in>set ys. \<not> fst (is_strong_roe E y nq))"
proof (induction page)
  case Nil
  then show ?case by simp
next
  case (Cons a page)
  show ?case
  proof (cases "fst (is_strong_roe E a nq)")
    case True
    with Cons.prems have "it = a" by simp
    with True have "a # page = [] @ it # page \<and> fst (is_strong_roe E it nq) \<and>
        (\<forall>y\<in>set []. \<not> fst (is_strong_roe E y nq))" by simp
    then show ?thesis by blast
  next
    case False
    with Cons.prems have "scan_roe E nq page = Some it" by simp
    from Cons.IH[OF this] obtain ys zs where
      "page = ys @ it # zs" "fst (is_strong_roe E it nq)" "\<forall>y\<in>set ys. \<not> fst (is_strong_roe E y nq)"
      by blast
    with False have "a # page = (a # ys) @ it # zs \<and> fst (is_strong_roe E it nq) \<and>
        (\<forall>y\<in>set (a # ys). \<not> fst (is_strong_roe E y nq))" by simp
    then show ?thesis by blast
  qed
qed

lemma scan_roe_None_iff:
  "scan_roe E nq page = None \<longleftrightarrow> (\<forall>it\<in>set page. \<not> fst (is_strong_roe E it nq))"
  by (induction page) auto

lemma search_loop_passed_over:
  "\<forall>r\<in>set pre. passed_over E nq r \<Longrightarrow>
     \<exists>si' prov' fpi'. search_loop E nq si prov fpi (pre @ rs) = search_loop E nq si' prov' fpi' rs"
proof (induction pre arbitrary: si prov fpi)
  case Nil
  have "search_loop E nq si prov fpi ([] @ rs) = search_loop E nq si prov fpi rs" by simp
  then show ?case by blast
next
  case (Cons r pre)
  then have IH: "\<And>si prov fpi. \<exists>si' prov' fpi'.
      search_loop E nq si prov fpi (pre @ rs) = search_loop E nq si' prov' fpi' rs"
    by simp
  from Cons.prems have r: "passed_over E nq r" by simp
  show ?case
  proof (cases r)
    case Failed
    then show ?thesis using IH[of si prov fpi] by simp
  next
    case (Reply status page)
    show ?thesis
    proof (cases "status = 200")
      case True
      with r Reply have n: "scan_roe E nq page = None" and full: "\<not> length page < items_per_page"
        by simp_all
      have "search_loop E nq si prov fpi ((r # pre) @ rs) =
            search_loop E nq (si + items_per_page) (scan_oversea E nq page prov)
              (if si = 0 then page else fpi) (pre @ rs)"
        using Reply True n full by (simp add: Let_def)
      then show ?thesis
        using IH[of "si + items_per_page" "scan_oversea E nq page prov" "if si = 0 then page else fpi"]
        by simp
    next
      case False
      with r Reply have "status \<noteq> 416" "status \<noteq> 404" by simp_all
      with False Reply have "search_loop E nq si prov fpi ((r # pre) @ rs) =
            search_loop E nq si prov fpi (pre @ rs)" by simp
      then show ?thesis using IH[of si prov fpi] by simp
    qed
  qed
qed

text \<open>
  C3. On a cache miss, let a page of results contain an item that is a strong ROE
  match, every reply before that page having been passed over (a retry, or a full
  page without such a match). Then the resolver returns, from that page, the first
  item that is a strong ROE match; that item is of type registered-overseas-entity
  and its normalised title equals the normalised query (every strong ROE match is an
  exact-name match, so none is ever preferred to one); the result is cached, and no
  reply after that page is consumed: pagination stops there.
\<close>

theorem strong_roe_match_short_circuits:
  assumes "norm_query = normalise_text E company_name"
    and "proprietor_cache st norm_query = None"
    and "search_replies st = pre @ Reply 200 page # rest"
    and "\<forall>r\<in>set pre. passed_over E norm_query r"
    and "\<exists>it\<in>set page. fst (is_strong_roe E it norm_query)"
  shows "\<exists>it ys zs.
           page = ys @ it # zs \<and> (\<forall>y\<in>set ys. \<not> fst (is_strong_roe E y norm_query)) \<and>
           dget it ''company_type'' = PStr ''registered-overseas-entity'' \<and>
           normalise_val E (py_or (dget_default it ''title'' (PStr '''')) (PStr '''')) = norm_query \<and>
           is_strong_roe E it norm_query = (True, ''exact name + ROE'') \<and>
           (\<forall>y\<in>set page. fst (is_strong_roe E y norm_query) \<longrightarrow>
              is_strong_roe E y norm_query = (True, ''exact name + ROE'')) \<and>
           get_company_details E company_name st =
             Some (Inr (result_of it), cache_details st norm_query (result_of it) rest)"
proof -
  from assms(5) have "scan_roe E norm_query page \<noteq> None"
    by (simp add: scan_roe_None_iff)
  then obtain it where it: "scan_roe E norm_query page = Some it" by blast
  from scan_roe_Some[OF it] obtain ys zs where
    page: "page = ys @ it # zs" and strong: "fst (is_strong_roe E it norm_query)"
    and first: "\<forall>y\<in>set ys. \<not> fst (is_strong_roe E y norm_query)"
    by blast
  have exact: "fst (is_strong_roe E y norm_query) \<Longrightarrow>
      dget y ''company_type'' = PStr ''registered-overseas-entity'' \<and>
      normalise_val E (py_or (dget_default y ''title'' (PStr '''')) (PStr '''')) = norm_query \<and>
      is_strong_roe E y norm_query = (True, ''exact name + ROE'')" for y
  proof -
    assume s: "fst (is_strong_roe E y norm_query)"
    with strong_roe_iff_exact[OF assms(1), of y]
    have a: "dget y ''company_type'' = PStr ''registered-overseas-entity''"
      and b: "normalise_val E (py_or (dget_default y ''title'' (PStr '''')) (PStr '''')) = norm_query"
      by simp_all
    then show ?thesis by (simp add: is_strong_roe_def Let_def)
  qed
  from search_loop_passed_over[OF assms(4), of 0 "(None, [])" "[]" "Reply 200 page # rest"]
  obtain si' prov' fpi' where
    "search_loop E norm_query 0 (None, []) [] (pre @ Reply 200 page # rest) =
       search_loop E norm_query si' prov' fpi' (Reply 200 page # rest)"
    by blast
  also have "\<dots> = Some (Matched it, rest)" using it by (simp add: Let_def)
  finally have loop: "search_loop E norm_query 0 (None, []) [] (search_replies st) = Some (Matched it, rest)"
    using assms(3) by simp
  have run: "get_company_details E company_name st =
      Some (Inr (result_of it), cache_details st norm_query (result_of it) rest)"
    using assms(1,2) loop by (simp add: get_company_details_def Let_def)
  from page first exact[OF strong] exact run show ?thesis by blast
qed

theorem strong_roe_match_short_circuits_witness:
  "get_company_details ascii_env ''Gable Enterprises''
     (empty_state\<lparr>search_replies :=
        [Reply 502 [],
         Reply 200 [[(''company_type'', PStr ''ltd''), (''title'', PStr ''GABLE ENTERPRISES'')],
                    [(''company_type'', PStr ''registered-overseas-entity''),
                     (''title'', PStr ''Gable Enterprises.''), (''company_number'', PStr ''OE000001'')],
                    [(''company_type'', PStr ''registered-overseas-entity''),
                     (''title'', PStr ''GABLE ENTERPRISES''), (''company_number'', PStr ''OE000002'')]],
         Reply 200 []]\<rparr>)
   = Some (Inr (PStr ''Gable Enterprises.'', PStr ''OE000001'', PNone, PNone),
           empty_state\<lparr>proprietor_cache :=
               [''gableenterprises'' \<mapsto> (PStr ''Gable Enterprises.'', PStr ''OE000001'', PNone, PNone)],
             search_replies := [Reply 200 []]\<rparr>)"
proof -
  let ?a = "[(''company_type'', PStr ''ltd''), (''title'', PStr ''GABLE ENTERPRISES'')]"
  let ?b = "[(''company_type'', PStr ''registered-overseas-entity''),
             (''title'', PStr ''Gable Enterprises.''), (''company_number'', PStr ''OE000001'')]"
  let ?c = "[(''company_type'', PStr ''registered-overseas-entity''),
             (''title'', PStr ''GABLE ENTERPRISES''), (''company_number'', PStr ''OE000002'')]"
  let ?st = "empty_state\<lparr>search_replies := [Reply 502 [], Reply 200 [?a, ?b, ?c], Reply 200 []]\<rparr>"
  have h1: "''gableenterprises'' = normalise_text ascii_env ''Gable Enterprises''"
    by (simp add: run_defs)
  have h2: "proprietor_cache ?st ''gableenterprises'' = None"
    by (simp add: empty_state_def)
  have h3: "search_replies ?st = [Reply 502 []] @ Reply 200 [?a, ?b, ?c] # [Reply 200 []]"
    by (simp add: empty_state_def)
  have h4: "\<forall>r\<in>set [Reply 502 []]. passed_over ascii_env ''gableenterprises'' r"
    by simp
  have sa: "\<not> fst (is_strong_roe ascii_env ?a ''gableenterprises'')"
    by (simp add: is_strong_roe_def dget_def)
  have sb: "fst (is_strong_roe ascii_env ?b ''gableenterprises'')"
    by (simp add: run_defs)
  have h5: "\<exists>it\<in>set [?a, ?b, ?c]. fst (is_strong_roe ascii_env it ''gableenterprises'')"
    using sb by simp
  from strong_roe_match_short_circuits[OF h1 h2 h3 h4 h5]
  obtain it ys zs where page: "[?a, ?b, ?c] = ys @ it # zs"
    and first: "\<forall>y\<in>set ys. \<not> fst (is_strong_roe ascii_env y ''gableenterprises'')"
    and strong: "is_strong_roe ascii_env it ''gableenterprises'' = (True, ''exact name + ROE'')"
    and run: "get_company_details ascii_env ''Gable Enterprises'' ?st =
             Some (Inr (result_of it), cache_details ?st ''gableenterprises'' (result_of it) [Reply 200 []])"
    by blast
  have "it = ?b"
  proof (cases ys)
    case Nil
    with page have "it = ?a" by simp
    with strong sa show ?thesis by simp
  next
    case (Cons y ys')
    with page have y: "y = ?a" and rest: "[?b, ?c] = ys' @ it # zs" by simp_all
    show ?thesis
    proof (cases ys')
      case Nil
      with rest show ?thesis by simp
    next
      case (Cons y' ys'')
      with rest have "y' = ?b" by simp
      with first \<open>ys = y # ys'\<close> Cons sb show ?thesis by simp
    qed
  qed
  with run show ?thesis
    by (simp add: result_of_def dget_def cache_details_def empty_state_def)
qed

section \<open>The resolution cache\<close>

lemma get_company_details_hit:
  "proprietor_cache st (normalise_text E name) = Some r \<Longrightarrow>
     get_company_details E name st = Some (Inr r, st)"
  by (simp add: get_company_details_def)

lemma get_company_details_stores:
  assumes "get_company_details E name st = Some (Inr r, st1)"
  shows "proprietor_cache st1 (normalise_text E name) = Some r"
proof (cases "proprietor_cache st (normalise_text E name)")
  case (Some c)
  with assms show ?thesis by (simp add: get_company_details_def)
next
  case None
  with assms show ?thesis
    by (auto simp: get_company_details_def cache_details_def Let_def
        split: option.splits search_end.splits sum.splits if_splits)
qed

lemma get_company_details_keeps:
  assumes "get_company_details E name st = Some (x, st1)" and "proprietor_cache st k = Some v"
  shows "proprietor_cache st1 k = Some v"
proof (cases "proprietor_cache st (normalise_text E name)")
  case (Some c)
  with assms show ?thesis by (simp add: get_company_details_def)
next
  case None
  with assms(2) have ne: "k \<noteq> normalise_text E name" by auto
  from assms(1) None ne assms(2) show ?thesis
    by (auto simp: get_company_details_def cache_details_def Let_def
        split: option.splits search_end.splits sum.splits if_splits)
qed

lemma find_BOs_keeps:
  assumes "find_BOs_for_company E name st = Some (x, st1)" and "proprietor_cache st k = Some v"
  shows "proprietor_cache st1 k = Some v"
proof (cases "BO_cache st (normalise_text E name)")
  case (Some c)
  with assms show ?thesis by (simp add: find_BOs_for_company_def)
next
  case None
  show ?thesis
  proof (cases "get_company_details E name st")
    case None
    with \<open>BO_cache st (normalise_text E name) = None\<close> assms(1) show ?thesis
      by (simp add: find_BOs_for_company_def)
  next
    case (Some a)
    obtain y st' where a: "a = (y, st')" by (cases a)
    from get_company_details_keeps[OF Some[unfolded a] assms(2)]
    have k: "proprietor_cache st' k = Some v" .
    from assms(1) \<open>BO_cache st (normalise_text E name) = None\<close> Some a
    have "proprietor_cache st1 = proprietor_cache st'"
      by (auto simp: find_BOs_for_company_def cache_bos_def Let_def
          split: option.splits sum.splits if_splits prod.splits)
    with k show ?thesis by simp
  qed
qed

lemma proprietor_step_keeps:
  assumes "proprietor_step E i prop st u = Some (x, st1)" and "proprietor_cache st k = Some v"
  shows "proprietor_cache st1 k = Some v"
proof (cases "\<exists>p. prop = Some p \<and> \<not> (p = [] \<or> py_strip E p = [])")
  case False
  with assms show ?thesis
    by (auto simp: proprietor_step_def Let_def split: option.splits if_splits)
next
  case True
  then obtain p where p: "prop = Some p" "\<not> (p = [] \<or> py_strip E p = [])" by blast
  show ?thesis
  proof (cases "find_BOs_for_company E p st")
    case None
    with assms(1) p show ?thesis by (simp add: proprietor_step_def Let_def)
  next
    case (Some a)
    obtain y st' where a: "a = (y, st')" by (cases a)
    from find_BOs_keeps[OF Some[unfolded a] assms(2)]
    have k: "proprietor_cache st' k = Some v" .
    from assms(1) p Some a have "st1 = st'"
      by (auto simp: proprietor_step_def Let_def split: sum.splits prod.splits if_splits)
    with k show ?thesis by simp
  qed
qed

lemma process_proprietors_keeps:
  "process_proprietors E record is st u = Some (x, st1) \<Longrightarrow> proprietor_cache st k = Some v \<Longrightarrow>
     proprietor_cache st1 k = Some v"
proof (induction "is" arbitrary: st u)
  case Nil
  then show ?case by simp
next
  case (Cons i "is")
  show ?case
  proof (cases "proprietor_step E i (record (prop_col i ''name'')) st u")
    case None
    with Cons.prems show ?thesis by simp
  next
    case (Some a)
    obtain y st' where a: "a = (y, st')" by (cases a)
    from proprietor_step_keeps[OF Some[unfolded a] Cons.prems(2)]
    have k: "proprietor_cache st' k = Some v" .
    show ?thesis
    proof (cases y)
      case (Inl e)
      with Cons.prems(1) Some a have "st1 = st'" by simp
      with k show ?thesis by simp
    next
      case (Inr u1)
      with Cons.prems(1) Some a have "process_proprietors E record is st' u1 = Some (x, st1)" by simp
      from Cons.IH[OF this k] show ?thesis .
    qed
  qed
qed

lemma process_record_keeps:
  assumes "process_record E record st = Some (x, st1)" and "proprietor_cache st k = Some v"
  shows "proprietor_cache st1 k = Some v"
proof -
  from assms(1) obtain y where "process_proprietors E record [1, 2, 3, 4] st Map.empty = Some (y, st1)"
    by (auto simp: process_record_def split: option.splits sum.splits prod.splits)
  from process_proprietors_keeps[OF this assms(2)] show ?thesis .
qed

text \<open>
  C8, as the code has it. When a resolution returns a result, the result is in the
  cache under the normalised name; a second resolution of the same raw name returns
  the same result and leaves the state as it is, so it issues no name-search request
  at all; no call of the resolver changes an entry that is already there; and after
  any further row has been processed the entry is still there and the name still
  resolves to the same result without a request. (The first resolution itself may
  issue several requests: one for every page and every retry.)
\<close>

theorem resolution_is_cached:
  assumes "get_company_details E name st = Some (Inr r, st1)"
  shows "proprietor_cache st1 (normalise_text E name) = Some r \<and>
         get_company_details E name st1 = Some (Inr r, st1) \<and>
         search_requests st1 st1 = 0 \<and>
         (\<forall>k v. proprietor_cache st k = Some v \<longrightarrow> proprietor_cache st1 k = Some v) \<and>
         (\<forall>record x st2. process_record E record st1 = Some (x, st2) \<longrightarrow>
            proprietor_cache st2 (normalise_text E name) = Some r \<and>
            get_company_details E name st2 = Some (Inr r, st2))"
proof -
  have stored: "proprietor_cache st1 (normalise_text E name) = Some r"
    using assms by (rule get_company_details_stores)
  have again: "get_company_details E name st1 = Some (Inr r, st1)"
    using stored by (rule get_company_details_hit)
  have keeps: "\<forall>k v. proprietor_cache st k = Some v \<longrightarrow> proprietor_cache st1 k = Some v"
    using get_company_details_keeps[OF assms] by blast
  have later: "\<forall>record x st2. process_record E record st1 = Some (x, st2) \<longrightarrow>
            proprietor_cache st2 (normalise_text E name) = Some r \<and>
            get_company_details E name st2 = Some (Inr r, st2)"
    using process_record_keeps[OF _ stored] get_company_details_hit by blast
  from stored again keeps later show ?thesis by (simp add: search_requests_def)
qed

theorem resolution_is_cached_witness:
  "get_company_details ascii_env ''Gable''
     (empty_state\<lparr>proprietor_cache := [''gable'' \<mapsto> no_result],
        search_replies := [Reply 200 []]\<rparr>)
   = Some (Inr no_result,
           empty_state\<lparr>proprietor_cache := [''gable'' \<mapsto> no_result],
             search_replies := [Reply 200 []]\<rparr>)"
proof -
  have h: "get_company_details ascii_env ''Gable''
      (empty_state\<lparr>search_replies := [Reply 502 [], Reply 404 [], Reply 200 []]\<rparr>)
    = Some (Inr no_result, empty_state\<lparr>proprietor_cache := [''gable'' \<mapsto> no_result],
        search_replies := [Reply 200 []]\<rparr>)"
    by (simp add: run_defs)
  from resolution_is_cached[OF h] show ?thesis by blast
qed

text \<open>
  The claim as stated fails: resolving a name twice can issue more than one
  name-search request, because the first resolution repeats the request after a 502.
\<close>

theorem resolving_twice_counterexample:
  "get_company_details ascii_env ''Gable''
      (empty_state\<lparr>search_replies := [Reply 502 [], Reply 404 []]\<rparr>)
    = Some (Inr no_result, empty_state\<lparr>proprietor_cache := [''gable'' \<mapsto> no_result]\<rparr>) \<and>
   get_company_details ascii_env ''Gable'' (empty_state\<lparr>proprietor_cache := [''gable'' \<mapsto> no_result]\<rparr>)
    = Some (Inr no_result, empty_state\<lparr>proprietor_cache := [''gable'' \<mapsto> no_result]\<rparr>) \<and>
   search_requests (empty_state\<lparr>search_replies := [Reply 502 [], Reply 404 []]\<rparr>)
      (empty_state\<lparr>proprietor_cache := [''gable'' \<mapsto> no_result]\<rparr>) = 2"
  by (simp add: run_defs search_requests_def)

section \<open>Facts about the classification\<close>

lemma any_trust_strs:
  "\<forall>x\<in>set xs. \<exists>t. x = PStr t \<Longrightarrow> \<exists>b. any_trust xs = Inr b"
proof (induction xs)
  case Nil
  then show ?case by auto
next
  case (Cons x xs)
  then obtain t where "x = PStr t" by auto
  moreover from Cons obtain b where "any_trust xs = Inr b" by auto
  ultimately show ?case
    by (cases "py_in_str controls_as_trust_string t") auto
qed

lemma trustee_control_ok:
  assumes "case noc of None \<Rightarrow> True
           | Some raw \<Rightarrow> raw = [] \<or> (\<exists>xs. literal_eval E raw = Inr (PList xs) \<and>
                (\<forall>x\<in>set xs. x = PNone \<or> (\<exists>t. x = PStr t)))"
  shows "\<exists>b. trustee_control E title i j noc = Inr b"
proof (cases "str_truthy noc")
  case False
  then show ?thesis by (auto simp: trustee_control_def)
next
  case True
  then obtain raw where raw: "noc = Some raw" "raw \<noteq> []"
    by (auto simp: str_truthy_def split: option.splits)
  with assms obtain xs where xs: "literal_eval E raw = Inr (PList xs)"
    "\<forall>x\<in>set xs. x = PNone \<or> (\<exists>t. x = PStr t)" by auto
  then have "\<forall>x\<in>set (filter (\<lambda>x. x \<noteq> PNone) xs). \<exists>t. x = PStr t" by auto
  from any_trust_strs[OF this] obtain b where "any_trust (filter (\<lambda>x. x \<noteq> PNone) xs) = Inr b" ..
  with True raw xs show ?thesis by (simp add: trustee_control_def py_iter_def)
qed

lemma uk_field_wf:
  assumes "\<not> truthy v \<or> (\<exists>s. v = PStr s)"
  shows "uk_field E v = Inr (\<exists>s. v = PStr s \<and> s \<noteq> [] \<and> is_uk_a_fuzzy_match E s)"
proof (cases "truthy v")
  case False
  then show ?thesis by (cases v) (auto simp: uk_field_def)
next
  case True
  with assms obtain s where "v = PStr s" by auto
  with True show ?thesis by (simp add: uk_field_def)
qed

lemma legal_form_in_uk_wf:
  assumes "json_loads E lf = Some (PDict d)"
    and "\<forall>v\<in>set (map (\<lambda>f. dget_default d f (PStr ''''))
            [''legal_authority'', ''country_registered'', ''place_registered'']).
           \<not> truthy v \<or> (\<exists>s. v = PStr s)"
    and "\<exists>s. PStr s \<in> set (map (\<lambda>f. dget_default d f (PStr ''''))
            [''legal_authority'', ''country_registered'', ''place_registered'']) \<and>
           s \<noteq> [] \<and> is_uk_a_fuzzy_match E s"
  shows "legal_form_in_uk E lf = Inr True"
proof -
  let ?a = "dget_default d ''legal_authority'' (PStr '''')"
  let ?c = "dget_default d ''country_registered'' (PStr '''')"
  let ?p = "dget_default d ''place_registered'' (PStr '''')"
  let ?m = "\<lambda>v. \<exists>s. v = PStr s \<and> s \<noteq> [] \<and> is_uk_a_fuzzy_match E s"
  define ba bc bp where "ba = ?m ?a" and "bc = ?m ?c" and "bp = ?m ?p"
  from assms(2) have a: "uk_field E ?a = Inr ba" and c: "uk_field E ?c = Inr bc"
    and p: "uk_field E ?p = Inr bp"
    by (simp_all add: uk_field_wf ba_def bc_def bp_def)
  from assms(3) obtain s where "PStr s = ?a \<or> PStr s = ?c \<or> PStr s = ?p"
    and "s \<noteq> []" and "is_uk_a_fuzzy_match E s" by auto
  then have "ba \<or> bc \<or> bp" unfolding ba_def bc_def bp_def by metis
  then show ?thesis
    unfolding legal_form_in_uk_def by (cases ba; cases bc; cases bp) (simp_all add: assms(1) a c p)
qed






lemmas classify_defs =
  uk_env_def example_json_loads_def example_legal_form_def corporate_row_def malformed_row_def
  individual_row_def jersey_row_def
  controls_as_trust_string_def SKIP_GEO_def py_strip_chars_def is_listed_company_def
  is_it_excluded_def is_government_owned_def uk_terms_def is_uk_a_fuzzy_match_def
  excluded_terms_def corporate_kinds_def uk_field_def legal_form_in_uk_def latlon_in_uk_def
  str_truthy_def ends_with_excluded_def in_uk_check_def py_iter_def trustee_control_def
  bo_status_def suffix_to_prefix Let_def







text \<open>
  C5, as the code has it. A corporate owner whose address does not end in an excluded
  suffix, whose stored legal form decodes to an object with string (or empty) fields
  of which one matches a UK term, is classified \<open>UK\<close>, whatever else the address
  holds, provided its natures of control are empty or parse to a list of strings:
  they are parsed before the status is chosen. When the address ends in an excluded
  suffix the UK checks are skipped: the owner is not found to be in the UK and is
  not classified \<open>UK\<close>.
\<close>

theorem uk_legal_form_gives_UK:
  "(row (bo_col i j ''kind'') = Some k \<and> py_strip E k \<in> set corporate_kinds \<and>
    \<not> ends_with_excluded E (case row (bo_col i j ''address'') of None \<Rightarrow> [] | Some a \<Rightarrow> a) \<and>
    row (bo_col i j ''legal_form'') = Some lf \<and> lf \<noteq> [] \<and> json_loads E lf = Some (PDict d) \<and>
    (\<forall>v\<in>set (map (\<lambda>f. dget_default d f (PStr ''''))
                [''legal_authority'', ''country_registered'', ''place_registered'']).
       \<not> truthy v \<or> (\<exists>s. v = PStr s)) \<and>
    (\<exists>s. PStr s \<in> set (map (\<lambda>f. dget_default d f (PStr ''''))
                [''legal_authority'', ''country_registered'', ''place_registered'']) \<and>
         s \<noteq> [] \<and> is_uk_a_fuzzy_match E s) \<and>
    (case row (bo_col i j ''natures_of_control'') of
       None \<Rightarrow> True
     | Some raw \<Rightarrow> raw = [] \<or> (\<exists>xs. literal_eval E raw = Inr (PList xs) \<and>
                                  (\<forall>x\<in>set xs. x = PNone \<or> (\<exists>t. x = PStr t))))
    \<longrightarrow> bo_status E row i j = Inr (Some (''UK'', 0, 0, 0, 0))) \<and>
   (ends_with_excluded E (case row (bo_col i j ''address'') of None \<Rightarrow> [] | Some a \<Rightarrow> a)
    \<longrightarrow> in_uk_check E row i j = Inr False \<and>
        bo_status E row i j \<noteq> Inr (Some (''UK'', 0, 0, 0, 0)))"
proof (intro conjI impI)
  assume a: "row (bo_col i j ''kind'') = Some k \<and> py_strip E k \<in> set corporate_kinds \<and>
    \<not> ends_with_excluded E (case row (bo_col i j ''address'') of None \<Rightarrow> [] | Some a \<Rightarrow> a) \<and>
    row (bo_col i j ''legal_form'') = Some lf \<and> lf \<noteq> [] \<and> json_loads E lf = Some (PDict d) \<and>
    (\<forall>v\<in>set (map (\<lambda>f. dget_default d f (PStr ''''))
                [''legal_authority'', ''country_registered'', ''place_registered'']).
       \<not> truthy v \<or> (\<exists>s. v = PStr s)) \<and>
    (\<exists>s. PStr s \<in> set (map (\<lambda>f. dget_default d f (PStr ''''))
                [''legal_authority'', ''country_registered'', ''place_registered'']) \<and>
         s \<noteq> [] \<and> is_uk_a_fuzzy_match E s) \<and>
    (case row (bo_col i j ''natures_of_control'') of
       None \<Rightarrow> True
     | Some raw \<Rightarrow> raw = [] \<or> (\<exists>xs. literal_eval E raw = Inr (PList xs) \<and>
                                  (\<forall>x\<in>set xs. x = PNone \<or> (\<exists>t. x = PStr t))))"
  then have k: "k \<noteq> []" by (auto simp: py_strip_def corporate_kinds_def)
  from a have nk: "py_strip E k \<noteq> ''individual-beneficial-owner''"
    "py_strip E k \<noteq> ''super-secure-beneficial-owner''"
    by (auto simp: corporate_kinds_def)
  from a have lf: "legal_form_in_uk E lf = Inr True"
    using legal_form_in_uk_wf[of E lf d] by blast
  from a lf have uk: "in_uk_check E row i j = Inr True"
    by (simp add: in_uk_check_def str_truthy_def Let_def)
  from a obtain t where t: "trustee_control E (row ''property_title_number'') i j
      (row (bo_col i j ''natures_of_control'')) = Inr t"
    using trustee_control_ok[where noc="row (bo_col i j ''natures_of_control'')" and E=E] by blast
  from a k nk uk t show "bo_status E row i j = Inr (Some (''UK'', 0, 0, 0, 0))"
    by (simp add: bo_status_def str_truthy_def Let_def)
next
  assume a: "ends_with_excluded E (case row (bo_col i j ''address'') of None \<Rightarrow> [] | Some a \<Rightarrow> a)"
  then show uk: "in_uk_check E row i j = Inr False"
    by (simp add: in_uk_check_def Let_def)
  then show "bo_status E row i j \<noteq> Inr (Some (''UK'', 0, 0, 0, 0))"
    by (auto simp: bo_status_def Let_def split: if_splits sum.splits)
qed

theorem uk_legal_form_gives_UK_witness:
  "bo_status uk_env corporate_row 1 1 = Inr (Some (''UK'', 0, 0, 0, 0)) \<and>
   in_uk_check uk_env jersey_row 1 1 = Inr False"
proof -
  have h1: "corporate_row (bo_col 1 1 ''kind'') = Some ''corporate-entity-beneficial-owner'' \<and>
    py_strip uk_env ''corporate-entity-beneficial-owner'' \<in> set corporate_kinds \<and>
    \<not> ends_with_excluded uk_env (case corporate_row (bo_col 1 1 ''address'') of None \<Rightarrow> [] | Some a \<Rightarrow> a) \<and>
    corporate_row (bo_col 1 1 ''legal_form'') = Some example_legal_form \<and> example_legal_form \<noteq> [] \<and>
    json_loads uk_env example_legal_form = Some (PDict [(''country_registered'', PStr ''England'')])"
    by (simp add: classify_defs run_defs bo_col_def digit_def)
  have h2: "(\<forall>v\<in>set (map (\<lambda>f. dget_default [(''country_registered'', PStr ''England'')] f (PStr ''''))
                [''legal_authority'', ''country_registered'', ''place_registered'']).
       \<not> truthy v \<or> (\<exists>s. v = PStr s))"
    by (simp add: dget_default_def)
  have m: "is_uk_a_fuzzy_match uk_env ''England''"
    by (simp add: classify_defs run_defs)
  have h3: "\<exists>s. PStr s \<in> set (map (\<lambda>f. dget_default [(''country_registered'', PStr ''England'')] f (PStr ''''))
                [''legal_authority'', ''country_registered'', ''place_registered'']) \<and>
         s \<noteq> [] \<and> is_uk_a_fuzzy_match uk_env s"
    using m by (intro exI[of _ "''England''"]) (simp add: dget_default_def)
  have h4: "(case corporate_row (bo_col 1 1 ''natures_of_control'') of
       None \<Rightarrow> True
     | Some raw \<Rightarrow> raw = [] \<or> (\<exists>xs. literal_eval uk_env raw = Inr (PList xs) \<and>
                                  (\<forall>x\<in>set xs. x = PNone \<or> (\<exists>t. x = PStr t))))"
    by (simp add: corporate_row_def bo_col_def digit_def)
  have h5: "ends_with_excluded uk_env (case jersey_row (bo_col 1 1 ''address'') of None \<Rightarrow> [] | Some a \<Rightarrow> a)"
    by (simp add: classify_defs run_defs bo_col_def digit_def)
  from uk_legal_form_gives_UK[of corporate_row 1 1 "''corporate-entity-beneficial-owner''" uk_env
      example_legal_form "[(''country_registered'', PStr ''England'')]"] h1 h2 h3 h4
  have "bo_status uk_env corporate_row 1 1 = Inr (Some (''UK'', 0, 0, 0, 0))" by blast
  moreover from uk_legal_form_gives_UK[of jersey_row 1 1 _ uk_env] h5
  have "in_uk_check uk_env jersey_row 1 1 = Inr False" by blast
  ultimately show ?thesis by blast
qed

text \<open>
  The claim as stated fails: the owner of \<open>malformed_row\<close> has a UK legal form and an
  address without an excluded suffix, but its natures of control do not parse, and
  the classification raises instead of returning \<open>UK\<close>.
\<close>

theorem uk_legal_form_counterexample:
  "malformed_row (bo_col 1 1 ''kind'') = Some ''corporate-entity-beneficial-owner'' \<and>
   malformed_row (bo_col 1 1 ''address'') = Some ''1 High Street, London'' \<and>
   \<not> ends_with_excluded uk_env ''1 High Street, London'' \<and>
   malformed_row (bo_col 1 1 ''legal_form'') = Some example_legal_form \<and>
   json_loads uk_env example_legal_form = Some (PDict [(''country_registered'', PStr ''England'')]) \<and>
   is_uk_a_fuzzy_match uk_env ''England'' \<and>
   bo_status uk_env malformed_row 1 1 = Inl (Invalid_natures_of_control (Some ''T1'') 1 1 ''garbage'')"
  by (simp add: classify_defs run_defs bo_col_def digit_def)

section \<open>The acronym patterns on text of letters and digits\<close>

lemma pat_acronym:
  "pat_sarl = Bnd # acronym_atoms ''sarl'' @ [Bnd]"
  "pat_spa = Bnd # acronym_atoms ''spa'' @ [Bnd]"
  "pat_bv = Bnd # acronym_atoms ''bv'' @ [Bnd]"
  "pat_gmbh = Bnd # acronym_atoms ''gmbh'' @ [Bnd]"
  by (simp_all add: pat_sarl_def pat_spa_def pat_bv_def pat_gmbh_def)

lemma re_match_skip_space:
  "list_all is_az09 t \<Longrightarrow> re_match E (SpStar # as) prev t = re_match E as prev t"
  by (cases t) (simp_all add: az09_not_space)

lemma re_match_skip_dot:
  "list_all is_az09 t \<Longrightarrow> re_match E (OptDot # as) prev t = re_match E as prev t"
  by (cases t) (simp_all add: az09_not_dot)

lemma boundary_after_word:
  "re_word E p \<Longrightarrow> list_all is_az09 t \<Longrightarrow> re_boundary E (Some p) t \<longleftrightarrow> t = []"
  by (cases t) (simp_all add: re_boundary_def az09_word)

lemma boundary_before_word:
  "list_all is_az09 t \<Longrightarrow> t \<noteq> [] \<Longrightarrow>
     re_boundary E prev t \<longleftrightarrow> \<not> (case prev of None \<Rightarrow> False | Some p \<Rightarrow> re_word E p)"
  by (cases t) (auto simp: re_boundary_def az09_word)

lemma re_match_acronym:
  "list_all is_az09 t \<Longrightarrow> list_all is_az09 ls \<Longrightarrow> ls \<noteq> [] \<Longrightarrow>
     re_match E (acronym_atoms ls @ [Bnd]) prev t = (if t = ls then Some (length ls) else None)"
proof (induction ls arbitrary: prev t rule: acronym_atoms.induct)
  case 1
  then show ?case by simp
next
  case (2 c)
  show ?case
  proof (cases t)
    case Nil
    then show ?thesis by simp
  next
    case (Cons x xs)
    with 2 have "re_word E x" "list_all is_az09 xs" by (simp_all add: az09_word)
    then show ?thesis using Cons by (auto simp: boundary_after_word)
  qed
next
  case (3 c d cs)
  let ?rest = "acronym_atoms (d # cs) @ [Bnd]"
  show ?case
  proof (cases t)
    case Nil
    then show ?thesis by simp
  next
    case (Cons x xs)
    with 3 have xs: "list_all is_az09 xs" and ls: "list_all is_az09 (d # cs)" by simp_all
    have ih: "re_match E ?rest (Some x) xs = (if xs = d # cs then Some (length (d # cs)) else None)"
      using "3.IH"[OF xs ls] by simp
    have skip: "re_match E (SpStar # OptDot # SpStar # ?rest) (Some x) xs = re_match E ?rest (Some x) xs"
      by (simp only: re_match_skip_space[OF xs] re_match_skip_dot[OF xs])
    have "re_match E (acronym_atoms (c # d # cs) @ [Bnd]) prev (x # xs) =
            (if x = c then map_option Suc (re_match E ?rest (Some x) xs) else None)"
      by (simp only: acronym_atoms.simps append_Cons re_match.simps skip)
    with ih Cons show ?thesis by (auto simp del: re_match.simps)
  qed
qed

lemma re_sub_copy_after_word:
  "re_word E p \<Longrightarrow> list_all is_az09 t \<Longrightarrow> re_sub (re_match E (Bnd # as)) repl (Some p) t = t"
proof (induction t arbitrary: p)
  case Nil
  then show ?case by simp
next
  case (Cons x xs)
  then have "\<not> re_boundary E (Some p) (x # xs)" by (simp add: boundary_after_word)
  then have none: "re_match E (Bnd # as) (Some p) (x # xs) = None" by simp
  from Cons have ih: "re_sub (re_match E (Bnd # as)) repl (Some x) xs = xs"
    by (simp add: az09_word del: re_match.simps)
  show ?case by (simp only: re_sub.simps none option.case ih)
qed

lemma re_sub_acronym:
  assumes "list_all is_az09 w" "list_all is_az09 ls" "ls \<noteq> []"
  shows "re_sub (re_match E (Bnd # acronym_atoms ls @ [Bnd])) repl None w =
           (if w = ls then repl else w)"
proof (cases w)
  case Nil
  with assms(3) show ?thesis by auto
next
  case (Cons x xs)
  let ?m = "re_match E (Bnd # acronym_atoms ls @ [Bnd])"
  have b: "re_boundary E None w" using Cons assms(1) by (simp add: re_boundary_def az09_word)
  have m: "?m None (x # xs) = (if w = ls then Some (length ls) else None)"
    using b re_match_acronym[OF assms] Cons by simp
  show ?thesis
  proof (cases "w = ls")
    case True
    with m have m1: "?m None (x # xs) = Some (length w)" by simp
    have "re_sub ?m repl None (x # xs) = repl"
      using Cons by (simp add: m1 del: re_match.simps)
    with True Cons show ?thesis by simp
  next
    case False
    with m have m0: "?m None (x # xs) = None" by simp
    from Cons assms(1) have "re_word E x" "list_all is_az09 xs" by (simp_all add: az09_word)
    from re_sub_copy_after_word[OF this]
    have "re_sub ?m repl (Some x) xs = xs" .
    then have "re_sub ?m repl None (x # xs) = x # xs"
      by (simp only: re_sub.simps m0 option.case)
    with False Cons show ?thesis by simp
  qed
qed

lemmas acronym_run =
  is_ascii_def py_isspace_def re_word_def is_az09_def ascii_upper_def re_boundary_def
  pat_sarl_def pat_spa_def pat_bv_def pat_gmbh_def

lemma acronym_steps:
  assumes "list_all is_az09 w"
  shows "re_sub (re_match E pat_gmbh) '' gmbh'' None
           (re_sub (re_match E pat_bv) '' bv'' None
              (re_sub (re_match E pat_spa) '' spa'' None
                 (re_sub (re_match E pat_sarl) '' sarl'' None w)))
         = (if w \<in> {''sarl'', ''spa'', ''bv'', ''gmbh''} then CHR '' '' # w else w)"
proof -
  have az: "list_all is_az09 ''sarl''" "list_all is_az09 ''spa''" "list_all is_az09 ''bv''"
    "list_all is_az09 ''gmbh''"
    by (simp_all add: is_az09_def)
  have s1: "re_sub (re_match E pat_sarl) repl None w = (if w = ''sarl'' then repl else w)" for repl
    unfolding pat_acronym using re_sub_acronym[OF assms az(1)] by simp
  have s2: "re_sub (re_match E pat_spa) repl None w = (if w = ''spa'' then repl else w)" for repl
    unfolding pat_acronym using re_sub_acronym[OF assms az(2)] by simp
  have s3: "re_sub (re_match E pat_bv) repl None w = (if w = ''bv'' then repl else w)" for repl
    unfolding pat_acronym using re_sub_acronym[OF assms az(3)] by simp
  have s4: "re_sub (re_match E pat_gmbh) repl None w = (if w = ''gmbh'' then repl else w)" for repl
    unfolding pat_acronym using re_sub_acronym[OF assms az(4)] by simp
  have c1: "re_sub (re_match E pat_gmbh) '' gmbh'' None
           (re_sub (re_match E pat_bv) '' bv'' None
              (re_sub (re_match E pat_spa) '' spa'' None '' sarl'')) = '' sarl''"
    by (simp add: acronym_run)
  have c2: "re_sub (re_match E pat_gmbh) '' gmbh'' None
           (re_sub (re_match E pat_bv) '' bv'' None '' spa'') = '' spa''"
    by (simp add: acronym_run)
  have c3: "re_sub (re_match E pat_gmbh) '' gmbh'' None '' bv'' = '' bv''"
    by (simp add: acronym_run)
  consider "w = ''sarl''" | "w = ''spa''" | "w = ''bv''" | "w = ''gmbh''"
    | "w \<notin> {''sarl'', ''spa'', ''bv'', ''gmbh''}" by blast
  then show ?thesis
  proof cases
    case 1
    then show ?thesis using s1[of "'' sarl''"] c1 by simp
  next
    case 2
    then show ?thesis using s1[of "'' sarl''"] s2[of "'' spa''"] c2 by simp
  next
    case 3
    then show ?thesis using s1[of "'' sarl''"] s2[of "'' spa''"] s3[of "'' bv''"] c3 by simp
  next
    case 4
    then show ?thesis using s1[of "'' sarl''"] s2[of "'' spa''"] s3[of "'' bv''"] s4[of "'' gmbh''"]
      by simp
  next
    case 5
    then show ?thesis using s1[of "'' sarl''"] s2[of "'' spa''"] s3[of "'' bv''"] s4[of "'' gmbh''"]
      by simp
  qed
qed

section \<open>The token pattern on text of letters and digits\<close>

lemma tokens_sorted: "sorted (map (\<lambda>t. - int (length t)) (TOKENS_TO_REMOVE E))"
  unfolding TOKENS_TO_REMOVE_def load_tokens_def by (rule sorted_sort_key)

lemma first_alt_word:
  assumes "list_all is_az09 w" "w \<noteq> []" "\<not> (case prev of None \<Rightarrow> False | Some p \<Rightarrow> re_word E p)"
  shows "sorted (map (\<lambda>t. - int (length t)) ts) \<Longrightarrow>
         first_alt E ts prev w =
           (if w \<in> set ts then Some (length w) else if [] \<in> set ts then Some 0 else None)"
proof (induction ts)
  case Nil
  then show ?case by simp
next
  case (Cons t ts)
  from Cons.prems have sorted_ts: "sorted (map (\<lambda>t. - int (length t)) ts)" by simp
  note IH = Cons.IH[OF sorted_ts]
  show ?case
  proof (cases "t = []")
    case True
    have b: "re_boundary E prev w" using assms by (simp add: boundary_before_word)
    from Cons.prems True have "\<forall>s\<in>set ts. length s = 0" by auto
    then have "w \<notin> set ts" using assms(2) by auto
    with True b assms(2) show ?thesis by auto
  next
    case False
    show ?thesis
    proof (cases "prefix t w")
      case pre: True
      then obtain r where w: "w = t @ r" by (auto simp: prefix_def)
      have "last t \<in> set w" using False w by simp
      then have lw: "re_word E (last t)" using assms(1) by (auto simp: list_all_iff az09_word)
      have r: "list_all is_az09 r" using assms(1) w by simp
      have "re_boundary E (Some (last t)) (drop (length t) w) \<longleftrightarrow> r = []"
        using boundary_after_word[OF lw r] w by simp
      also have "\<dots> \<longleftrightarrow> t = w" using w by auto
      finally have cond: "re_boundary E (Some (last t)) (drop (length t) w) \<longleftrightarrow> t = w" .
      show ?thesis
      proof (cases "t = w")
        case True
        with cond pre False show ?thesis by simp
      next
        case neq: False
        with cond pre False have "first_alt E (t # ts) prev w = first_alt E ts prev w" by simp
        with IH neq False show ?thesis by auto
      qed
    next
      case npre: False
      then have "t \<noteq> w" by auto
      moreover from npre have "first_alt E (t # ts) prev w = first_alt E ts prev w" by simp
      ultimately show ?thesis using IH False by auto
    qed
  qed
qed

lemma re_sub_tokens_copy:
  "re_word E p \<Longrightarrow> list_all is_az09 t \<Longrightarrow> re_sub (match_tokens E ts) repl (Some p) t = t"
proof (induction t arbitrary: p)
  case Nil
  then show ?case by simp
next
  case (Cons x xs)
  then have "\<not> re_boundary E (Some p) (x # xs)" by (simp add: boundary_after_word)
  then have none: "match_tokens E ts (Some p) (x # xs) = None" by (simp add: match_tokens_def)
  from Cons have ih: "re_sub (match_tokens E ts) repl (Some x) xs = xs"
    by (simp add: az09_word)
  show ?case by (simp only: re_sub.simps none option.case ih)
qed

lemma re_sub_tokens_word:
  assumes "list_all is_az09 w" "\<not> (case prev of None \<Rightarrow> False | Some p \<Rightarrow> re_word E p)"
    and "sorted (map (\<lambda>t. - int (length t)) ts)"
  shows "re_sub (match_tokens E ts) [] prev w = (if w \<in> set ts then [] else w)"
proof (cases w)
  case Nil
  then show ?thesis by simp
next
  case (Cons x xs)
  then have ne: "w \<noteq> []" by simp
  have b: "re_boundary E prev w" using assms(1,2) ne by (simp add: boundary_before_word)
  have m: "match_tokens E ts prev (x # xs) =
      (if w \<in> set ts then Some (length w) else if [] \<in> set ts then Some 0 else None)"
    using first_alt_word[OF assms(1) ne assms(2,3)] b Cons by (simp add: match_tokens_def)
  from Cons assms(1) have "re_word E x" "list_all is_az09 xs" by (simp_all add: az09_word)
  from re_sub_tokens_copy[OF this]
  have copy: "re_sub (match_tokens E ts) [] (Some x) xs = xs" .
  show ?thesis
  proof (cases "w \<in> set ts")
    case True
    with m have "match_tokens E ts prev (x # xs) = Some (length w)" by simp
    then have "re_sub (match_tokens E ts) [] prev (x # xs) = []"
      using Cons by simp
    with True Cons show ?thesis by simp
  next
    case False
    with m have "match_tokens E ts prev (x # xs) = Some 0 \<or> match_tokens E ts prev (x # xs) = None"
      by auto
    then have "re_sub (match_tokens E ts) [] prev (x # xs) = x # xs"
      using copy by auto
    with False Cons show ?thesis by simp
  qed
qed

lemma re_sub_tokens_spaced_word:
  assumes "list_all is_az09 w" and "sorted (map (\<lambda>t. - int (length t)) ts)"
  shows "re_sub (match_tokens E ts) [] None (CHR '' '' # w) =
           CHR '' '' # (if w \<in> set ts then [] else w)"
proof -
  have sp: "\<not> re_word E CHR '' ''"
    by (simp add: re_word_def is_ascii_def is_az09_def ascii_upper_def)
  then have "\<not> re_boundary E None (CHR '' '' # w)" by (simp add: re_boundary_def)
  then have none: "match_tokens E ts None (CHR '' '' # w) = None" by (simp add: match_tokens_def)
  have "re_sub (match_tokens E ts) [] (Some CHR '' '') w = (if w \<in> set ts then [] else w)"
    using re_sub_tokens_word[OF assms(1) _ assms(2), where prev="Some CHR '' ''" and E=E] sp by simp
  then show ?thesis by (simp only: re_sub.simps none option.case)
qed

section \<open>Normalising a normal form\<close>

lemma normalise_text_of_word:
  assumes "list_all is_az09 w"
  shows "normalise_text E w = (if w \<in> set (TOKENS_TO_REMOVE E) then [] else w)"
proof -
  let ?ts = "TOKENS_TO_REMOVE E"
  let ?r = "if w \<in> set ?ts then [] else w"
  have nospace: "\<forall>c\<in>set w. \<not> py_isspace E c"
    using assms by (auto simp: list_all_iff az09_not_space)
  have keep: "filter (\<lambda>c. is_az09 c \<or> py_isspace E c) w = w"
    using assms by (auto simp: list_all_iff intro: filter_True)
  have sp: "py_isspace E CHR '' ''" by (simp add: py_isspace_def is_ascii_def)
  have r_nospace: "\<forall>c\<in>set ?r. \<not> py_isspace E c" using nospace by simp
  have fr: "filter (\<lambda>c. \<not> py_isspace E c) ?r = ?r"
    using r_nospace by (intro filter_True) blast
  show ?thesis
  proof (cases "w \<in> {''sarl'', ''spa'', ''bv'', ''gmbh''}")
    case False
    have "normalise_text E w = py_strip E (filter (\<lambda>c. \<not> py_isspace E c)
        (re_sub (match_tokens E ?ts) [] None (filter (\<lambda>c. is_az09 c \<or> py_isspace E c) w)))"
      unfolding normalise_text_def Let_def
      using acronym_steps[OF assms, of E] False
      by (simp only: py_lower_az09[OF assms] py_fold_az09[OF assms] if_False)
    also have "\<dots> = py_strip E (filter (\<lambda>c. \<not> py_isspace E c) ?r)"
      using re_sub_tokens_word[OF assms _ tokens_sorted, where prev=None and E=E] by (simp add: keep)
    also have "\<dots> = ?r" using fr r_nospace by (simp add: py_strip_no_space)
    finally show ?thesis .
  next
    case True
    have "normalise_text E w = py_strip E (filter (\<lambda>c. \<not> py_isspace E c)
        (re_sub (match_tokens E ?ts) [] None (filter (\<lambda>c. is_az09 c \<or> py_isspace E c) (CHR '' '' # w))))"
      unfolding normalise_text_def Let_def
      using acronym_steps[OF assms, of E] True
      by (simp only: py_lower_az09[OF assms] py_fold_az09[OF assms] if_True)
    also have "\<dots> = py_strip E (filter (\<lambda>c. \<not> py_isspace E c) (CHR '' '' # ?r))"
      using re_sub_tokens_spaced_word[OF assms tokens_sorted, of E] sp by (simp add: keep)
    also have "\<dots> = py_strip E (filter (\<lambda>c. \<not> py_isspace E c) ?r)" using sp by simp
    also have "\<dots> = ?r" using fr r_nospace by (simp add: py_strip_no_space)
    finally show ?thesis .
  qed
qed

text \<open>
  C6, as the code has it. Normalising a normal form returns it unchanged unless the
  normal form is itself one of the configured tokens, in which case the second
  application returns the empty string. So the normaliser is idempotent on every
  string whose normal form is not a token, and on all strings when no token is
  configured.
\<close>

theorem normalise_twice:
  "normalise_text E (normalise_text E s) =
     (if normalise_text E s \<in> set (TOKENS_TO_REMOVE E) then [] else normalise_text E s)"
  by (rule normalise_text_of_word) (rule normalise_text_az09)

theorem normalise_twice_witness:
  "normalise_text ascii_env (normalise_text ascii_env ''S. A.'') = ''sa'' \<and>
   normalise_text (ascii_env\<lparr>token_file := [''sa'']\<rparr>)
     (normalise_text (ascii_env\<lparr>token_file := [''sa'']\<rparr>) ''S. A.'') = []"
proof -
  have a: "normalise_text ascii_env ''S. A.'' = ''sa''" by (simp add: run_defs)
  have b: "TOKENS_TO_REMOVE ascii_env = []" by (simp add: run_defs)
  have c: "normalise_text (ascii_env\<lparr>token_file := [''sa'']\<rparr>) ''S. A.'' = ''sa''"
    by (simp add: run_defs)
  have d: "TOKENS_TO_REMOVE (ascii_env\<lparr>token_file := [''sa'']\<rparr>) = [''sa'']"
    by (simp add: run_defs)
  from normalise_twice[of ascii_env "''S. A.''"] a b
  have "normalise_text ascii_env (normalise_text ascii_env ''S. A.'') = ''sa''" by simp
  moreover from normalise_twice[of "ascii_env\<lparr>token_file := [''sa'']\<rparr>" "''S. A.''"] c d
  have "normalise_text (ascii_env\<lparr>token_file := [''sa'']\<rparr>)
     (normalise_text (ascii_env\<lparr>token_file := [''sa'']\<rparr>) ''S. A.'') = []" by simp
  ultimately show ?thesis by blast
qed

text \<open>
  The claim as stated fails when \<open>sa\<close> is a configured token: \<open>s a\<close> normalises to
  \<open>sa\<close>, and \<open>sa\<close> normalises to the empty string.
\<close>

theorem idempotence_counterexample:
  "normalise_text (ascii_env\<lparr>token_file := [''sa'']\<rparr>) ''s a'' = ''sa'' \<and>
   normalise_text (ascii_env\<lparr>token_file := [''sa'']\<rparr>)
     (normalise_text (ascii_env\<lparr>token_file := [''sa'']\<rparr>) ''s a'') = []"
  by (simp add: run_defs)

section \<open>Normalising without tokens\<close>









end
